theory Spec2Isabelle
  imports Complex_Main "HOL-Library.Product_Lexorder" "HOL-Library.List_Lexorder" "HOL-Library.Char_ord"
begin

section \<open>Python values and errors\<close>

text \<open>
  The exceptions the modelled functions raise. A function that may raise returns
  \<open>py_error + 'a\<close>, with \<open>Inl\<close> for the exception.
\<close>

datatype py_error =
    TypeError
  | ValueError
  | AssertionError
  | ZeroDivisionError
  | OverflowError
  | ValidationError
  | GreatExpectationsError
  | BackendError

subsection \<open>Floats\<close>

text \<open>
  A Python \<open>float\<close> is an IEEE 754 double. A finite float is given by its exact value, a
  rational (\<open>Float 0\<close> is \<open>0.0\<close>); negative zero and the two infinities are values of
  their own. NaN does not arise in the modelled code.
\<close>

datatype pyfloat = Float rat | NegZero | PosInf | NegInf

text \<open>\<open>pow2 e\<close> is \<open>2\<close> to the power \<open>e\<close>, for an integer \<open>e\<close>.\<close>

definition pow2 :: "int \<Rightarrow> rat" where
  "pow2 e = (if 0 \<le> e then 2 ^ nat e else 1 / 2 ^ nat (- e))"

text \<open>\<open>int.bit_length\<close>: the number of binary digits of a positive integer.\<close>

function bit_length :: "int \<Rightarrow> nat" where
  "bit_length n = (if n \<le> 0 then 0 else Suc (bit_length (n div 2)))"
  by pat_completeness auto
termination
  by (relation "measure nat") auto

declare bit_length.simps [simp del]

text \<open>
  For a positive rational \<open>a\<close>, the integer \<open>e\<close> with \<open>2 ^ e \<le> a < 2 ^ (e + 1)\<close>: for
  \<open>a \<ge> 1\<close> it is one less than the bit length of the integer part, and for \<open>a < 1\<close> it
  is minus the least \<open>k\<close> with \<open>1 / a \<le> 2 ^ k\<close>.
\<close>

definition floor_log2 :: "rat \<Rightarrow> int" where
  "floor_log2 a =
     (if 1 \<le> a then int (bit_length \<lfloor>a\<rfloor>) - 1
      else - int (bit_length (\<lceil>1 / a\<rceil> - 1)))"

text \<open>Rounding to the nearest integer, a tie going to the even one.\<close>

definition round_half_even :: "rat \<Rightarrow> int" where
  "round_half_even x =
     (let f = \<lfloor>x\<rfloor>; r = x - of_int f
      in if r < 1 / 2 then f
         else if 1 / 2 < r then f + 1
         else if even f then f else f + 1)"

text \<open>
  The double nearest to a rational, a tie going to the even significand: the value is
  rounded to a multiple of \<open>2 ^ p\<close>, where \<open>p\<close> leaves 53 significant bits and is at least
  \<open>-1074\<close> (the subnormal range). The result is meant for arguments below the overflow
  bound.
\<close>

definition round_double :: "rat \<Rightarrow> rat" where
  "round_double q =
     (if q = 0 then 0
      else
        let a = \<bar>q\<bar>;
            p = max (floor_log2 a - 52) (- 1074)
        in sgn q * of_int (round_half_even (a / pow2 p)) * pow2 p)"

text \<open>
  The values that round to \<open>2 ^ 1024\<close> or beyond: those from the midpoint between the
  largest double \<open>2 ^ 1024 - 2 ^ 971\<close> and \<open>2 ^ 1024\<close> on (the largest double has an odd
  significand, so the tie rounds up).
\<close>

definition double_overflow :: "rat \<Rightarrow> bool" where
  "double_overflow q \<longleftrightarrow> 2 ^ 1024 - 2 ^ 970 \<le> \<bar>q\<bar>"

text \<open>
  Python's true division \<open>a / b\<close> on integers: the correctly rounded quotient. It raises
  \<open>ZeroDivisionError\<close> for \<open>b = 0\<close> and \<open>OverflowError\<close> when the result is too large for a
  float; a zero result is negative when exactly one of \<open>a\<close> and \<open>b\<close> is negative.
\<close>

definition py_truediv :: "int \<Rightarrow> int \<Rightarrow> py_error + pyfloat" where
  "py_truediv a b =
     (if b = 0 then Inl ZeroDivisionError
      else
        let q = of_int a / of_int b in
        if double_overflow q then Inl OverflowError
        else
          let r = round_double q in
          if r = 0 then Inr (if (a < 0) \<noteq> (b < 0) then NegZero else Float 0)
          else Inr (Float r))"

text \<open>
  \<open>x * 100\<close> on a float: the product is rounded again, and a product too large for a float
  is an infinity (float multiplication does not raise).
\<close>

definition py_times_100 :: "pyfloat \<Rightarrow> pyfloat" where
  "py_times_100 x =
     (case x of
        Float r \<Rightarrow>
          let q = r * 100 in
          if double_overflow q then (if 0 < q then PosInf else NegInf)
          else Float (round_double q)
      | NegZero \<Rightarrow> NegZero
      | PosInf \<Rightarrow> PosInf
      | NegInf \<Rightarrow> NegInf)"

text \<open>
  \<open>x >= m\<close> for a float \<open>x\<close> and a Python number \<open>m\<close> (an \<open>int\<close> or a finite \<open>float\<close>)
  given by its exact value: Python compares the two exactly.
\<close>

definition py_ge :: "pyfloat \<Rightarrow> rat \<Rightarrow> bool" where
  "py_ge x m =
     (case x of
        Float r \<Rightarrow> m \<le> r
      | NegZero \<Rightarrow> m \<le> 0
      | PosInf \<Rightarrow> True
      | NegInf \<Rightarrow> False)"

subsection \<open>Payload values\<close>

text \<open>
  The values stored in a result payload. \<open>'a\<close> is the type of the column values
  (one mutually comparable type, hence \<open>linorder\<close> where sorting is involved).
  A \<open>{"value": v, "count": c}\<close> dictionary is the pair \<open>(v, c)\<close>.
\<close>

datatype 'a pyval =
    PNone
  | PInt int
  | PFloat pyfloat
  | PList "'a list"
  | PIndexList "int list"
  | PCounts "('a \<times> nat) list"
  | PStrList "string list"

fun opt_int :: "int option \<Rightarrow> 'a pyval" where
  "opt_int None = PNone"
| "opt_int (Some i) = PInt i"

fun opt_float :: "pyfloat option \<Rightarrow> 'a pyval" where
  "opt_float None = PNone"
| "opt_float (Some r) = PFloat r"

fun opt_index_list :: "int list option \<Rightarrow> 'a pyval" where
  "opt_index_list None = PNone"
| "opt_index_list (Some is) = PIndexList is"

text \<open>The slice \<open>xs[:k]\<close>: a negative \<open>k\<close> counts from the end.\<close>

definition py_slice_to :: "'b list \<Rightarrow> int \<Rightarrow> 'b list" where
  "py_slice_to xs k =
     (if k < 0 then take (nat (int (length xs) + k)) xs else take (nat k) xs)"

section \<open>The result formatter\<close>

text \<open>
  A parsed result format: the dictionary \<open>{"result_format": ..., "partial_unexpected_count": ...}\<close>
  that \<open>parse_result_format\<close> produces.
\<close>

record result_format_dict =
  result_format :: string
  partial_unexpected_count :: int

text \<open>
  The returned object \<open>{"success": ..., "result": {...}}\<close>. \<open>success\<close> is a Python
  boolean or \<open>None\<close>. The \<open>"result"\<close> key is absent for BOOLEAN_ONLY; otherwise it holds
  a dictionary from field names to values.
\<close>

record 'a return_obj =
  success :: "bool option"
  result :: "(string \<rightharpoonup> 'a pyval) option"

subsection \<open>\<open>collections.Counter\<close> and \<open>most_common\<close>\<close>

text \<open>
  \<open>Counter(xs)\<close> counts the elements of \<open>xs\<close> one by one; its items are kept in the order
  of first insertion.
\<close>

fun counter_incr :: "'a \<Rightarrow> ('a \<times> nat) list \<Rightarrow> ('a \<times> nat) list" where
  "counter_incr x [] = [(x, 1)]"
| "counter_incr x ((y, c) # ys) =
     (if x = y then (y, Suc c) # ys else (y, c) # counter_incr x ys)"

definition Counter :: "'a list \<Rightarrow> ('a \<times> nat) list" where
  "Counter xs = foldl (\<lambda>acc x. counter_incr x acc) [] xs"

text \<open>\<open>c[v]\<close> on a counter: the count held for \<open>v\<close>, and 0 for a missing value.\<close>

definition count_in :: "('a \<times> nat) list \<Rightarrow> 'a \<Rightarrow> nat" where
  "count_in acc v = (case map_of acc v of None \<Rightarrow> 0 | Some c \<Rightarrow> c)"

text \<open>
  \<open>most_common(n)\<close> for \<open>n \<ge> 1\<close> is \<open>heapq.nlargest(n, items, key=count)\<close>, that is
  \<open>sorted(items, key=count, reverse=True)[:n]\<close>: a stable sort by descending count, so
  that among equal counts the element inserted first comes first.
\<close>

definition most_common :: "nat \<Rightarrow> ('a \<times> nat) list \<Rightarrow> ('a \<times> nat) list" where
  "most_common n items = take n (sort_key (\<lambda>(v, c). - int c) items)"

text \<open>
  The \<open>try\<close> block of the formatter. \<open>Counter\<close> raises \<open>TypeError\<close> on an unhashable
  element, which the \<open>except\<close> clause turns into the placeholder. The predicate
  \<open>hashable\<close> says which values of the column type are hashable.
\<close>

definition partial_unexpected_counts ::
  "('a::linorder \<Rightarrow> bool) \<Rightarrow> int \<Rightarrow> 'a list \<Rightarrow> 'a pyval" where
  "partial_unexpected_counts hashable n xs =
     (if list_all hashable xs
      then PCounts (sort_key (\<lambda>(v, c). (- int c, v)) (most_common (nat n) (Counter xs)))
      else PStrList [''partial_exception_counts requires a hashable type''])"

text \<open>
  \<open>occurs_before l a b\<close>: some occurrence of \<open>a\<close> in \<open>l\<close> is followed by an occurrence
  of \<open>b\<close>.
\<close>

fun occurs_before :: "'a list \<Rightarrow> 'a \<Rightarrow> 'a \<Rightarrow> bool" where
  "occurs_before [] a b = False"
| "occurs_before (x # xs) a b = ((x = a \<and> b \<in> set xs) \<or> occurs_before xs a b)"

text \<open>
  The field as the specification words it: the values with their counts, ordered by
  descending count and, among equal counts, by ascending value, then truncated to \<open>n\<close>
  entries.
\<close>

definition partial_unexpected_counts_spec :: "nat \<Rightarrow> 'a::linorder list \<Rightarrow> ('a \<times> nat) list" where
  "partial_unexpected_counts_spec n xs =
     take n (sort_key (\<lambda>(v, c). (- int c, v)) (map (\<lambda>v. (v, count_list xs v)) (remdups xs)))"

subsection \<open>\<open>_format_map_output\<close>\<close>

text \<open>
  The percentages computed for BASIC and above: \<open>missing_count\<close>, \<open>unexpected_percent\<close>,
  \<open>missing_percent\<close> and \<open>unexpected_percent_nonmissing\<close>. A comparison or an arithmetic
  operation on \<open>None\<close> raises \<open>TypeError\<close>, and a division may raise \<open>OverflowError\<close>.
\<close>

record percents =
  missing_count :: "int option"
  unexpected_percent :: "pyfloat option"
  missing_percent :: "pyfloat option"
  unexpected_percent_nonmissing :: "pyfloat option"

text \<open>\<open>a / b * 100\<close> for a count \<open>a\<close> that may be \<open>None\<close> and an integer \<open>b\<close>.\<close>

definition percent_of :: "int option \<Rightarrow> int \<Rightarrow> py_error + pyfloat" where
  "percent_of a b =
     (case a of
        None \<Rightarrow> Inl TypeError
      | Some x \<Rightarrow>
          (case py_truediv x b of Inl e \<Rightarrow> Inl e | Inr q \<Rightarrow> Inr (py_times_100 q)))"

definition compute_percents ::
  "int option \<Rightarrow> int option \<Rightarrow> int option \<Rightarrow> py_error + percents" where
  "compute_percents element_count nonnull_count unexpected_count =
     (case element_count of
        None \<Rightarrow> Inl TypeError
      | Some ec \<Rightarrow>
          let mc = (case nonnull_count of None \<Rightarrow> None | Some nn \<Rightarrow> Some (ec - nn)) in
          if ec > 0 then
            (case percent_of unexpected_count ec of
               Inl e \<Rightarrow> Inl e
             | Inr up \<Rightarrow>
                 (case nonnull_count of
                    None \<Rightarrow>
                      Inr \<lparr>missing_count = mc, unexpected_percent = Some up,
                           missing_percent = None, unexpected_percent_nonmissing = None\<rparr>
                  | Some nn \<Rightarrow>
                      (case percent_of mc ec of
                         Inl e \<Rightarrow> Inl e
                       | Inr mp \<Rightarrow>
                           if nn > 0 then
                             (case percent_of unexpected_count nn of
                                Inl e \<Rightarrow> Inl e
                              | Inr upn \<Rightarrow>
                                  Inr \<lparr>missing_count = mc, unexpected_percent = Some up,
                                       missing_percent = Some mp,
                                       unexpected_percent_nonmissing = Some upn\<rparr>)
                           else
                             Inr \<lparr>missing_count = mc, unexpected_percent = Some up,
                                  missing_percent = Some mp,
                                  unexpected_percent_nonmissing = None\<rparr>)))
          else
            Inr \<lparr>missing_count = mc, unexpected_percent = None,
                 missing_percent = None, unexpected_percent_nonmissing = None\<rparr>)"

text \<open>The \<open>"result"\<close> dictionary as it stands when the BASIC tier returns.\<close>

definition basic_result ::
  "int \<Rightarrow> int option \<Rightarrow> int option \<Rightarrow> int option \<Rightarrow> 'a list \<Rightarrow> percents
     \<Rightarrow> (string \<rightharpoonup> 'a pyval)" where
  "basic_result n element_count nonnull_count unexpected_count unexpected_list p =
     (let r = [''element_count'' \<mapsto> opt_int element_count,
               ''unexpected_count'' \<mapsto> opt_int unexpected_count,
               ''unexpected_percent'' \<mapsto> opt_float (unexpected_percent p),
               ''partial_unexpected_list'' \<mapsto> PList (py_slice_to unexpected_list n)]
      in if nonnull_count = None then r
         else r(''missing_count'' \<mapsto> opt_int (missing_count p),
                ''missing_percent'' \<mapsto> opt_float (missing_percent p),
                ''unexpected_percent_nonmissing'' \<mapsto>
                   opt_float (unexpected_percent_nonmissing p)))"

text \<open>The update made for SUMMARY and above when the limit is positive.\<close>

definition summary_update ::
  "('a::linorder \<Rightarrow> bool) \<Rightarrow> int \<Rightarrow> 'a list \<Rightarrow> int list option
     \<Rightarrow> (string \<rightharpoonup> 'a pyval) \<Rightarrow> (string \<rightharpoonup> 'a pyval)" where
  "summary_update hashable n unexpected_list unexpected_index_list r =
     (if 0 < n then
        r(''partial_unexpected_index_list'' \<mapsto>
             (case unexpected_index_list of
                None \<Rightarrow> PNone
              | Some is \<Rightarrow> PIndexList (py_slice_to is n)),
          ''partial_unexpected_counts'' \<mapsto>
             partial_unexpected_counts hashable n unexpected_list)
      else r)"

text \<open>The update made after the SUMMARY tier has returned.\<close>

definition complete_update ::
  "'a list \<Rightarrow> int list option \<Rightarrow> (string \<rightharpoonup> 'a pyval) \<Rightarrow> (string \<rightharpoonup> 'a pyval)" where
  "complete_update unexpected_list unexpected_index_list r =
     r(''unexpected_list'' \<mapsto> PList unexpected_list,
       ''unexpected_index_list'' \<mapsto> opt_index_list unexpected_index_list)"

definition format_map_output ::
  "('a::linorder \<Rightarrow> bool) \<Rightarrow> result_format_dict \<Rightarrow> bool option \<Rightarrow> int option \<Rightarrow> int option
     \<Rightarrow> int option \<Rightarrow> 'a list option \<Rightarrow> int list option \<Rightarrow> py_error + 'a return_obj" where
  "format_map_output hashable rf succ element_count nonnull_count unexpected_count
       unexpected_list unexpected_index_list =
     (if result_format rf = ''BOOLEAN_ONLY'' then Inr \<lparr>success = succ, result = None\<rparr>
      else
        case compute_percents element_count nonnull_count unexpected_count of
          Inl e \<Rightarrow> Inl e
        | Inr p \<Rightarrow>
            (case unexpected_list of
               None \<Rightarrow> Inl TypeError
             | Some ul \<Rightarrow>
                 let n = partial_unexpected_count rf;
                     r1 = basic_result n element_count nonnull_count unexpected_count ul p
                 in
                 if result_format rf = ''BASIC'' then Inr \<lparr>success = succ, result = Some r1\<rparr>
                 else
                   let r2 = summary_update hashable n ul unexpected_index_list r1 in
                   if result_format rf = ''SUMMARY''
                   then Inr \<lparr>success = succ, result = Some r2\<rparr>
                   else
                     let r3 = complete_update ul unexpected_index_list r2 in
                     if result_format rf = ''COMPLETE''
                     then Inr \<lparr>success = succ, result = Some r3\<rparr>
                     else Inl ValueError))"

subsection \<open>Comparing the payloads of the tiers\<close>

text \<open>
  The position of a result format in the chain BOOLEAN_ONLY, BASIC, SUMMARY, COMPLETE.
\<close>

definition tier_index :: "string \<Rightarrow> nat option" where
  "tier_index f =
     (if f = ''BOOLEAN_ONLY'' then Some 0
      else if f = ''BASIC'' then Some 1
      else if f = ''SUMMARY'' then Some 2
      else if f = ''COMPLETE'' then Some 3
      else None)"

text \<open>
  The fields of a payload are \<open>success\<close> and the fields of its \<open>"result"\<close> dictionary.
  \<open>payload_le p q\<close> says that every field of \<open>p\<close> is a field of \<open>q\<close> with the same value.
\<close>

definition payload_le :: "'a return_obj \<Rightarrow> 'a return_obj \<Rightarrow> bool" where
  "payload_le p q \<longleftrightarrow>
     success p = success q \<and>
     (case result p of
        None \<Rightarrow> True
      | Some r \<Rightarrow> (case result q of None \<Rightarrow> False | Some r' \<Rightarrow> r \<subseteq>\<^sub>m r'))"

text \<open>The \<open>"result"\<close> dictionary of the tier at position \<open>i \<ge> 1\<close>.\<close>

definition tier_result ::
  "('a::linorder \<Rightarrow> bool) \<Rightarrow> nat \<Rightarrow> int \<Rightarrow> int option \<Rightarrow> int option \<Rightarrow> int option \<Rightarrow> 'a list
     \<Rightarrow> int list option \<Rightarrow> percents \<Rightarrow> (string \<rightharpoonup> 'a pyval)" where
  "tier_result h i n ec nn uc l uil p =
     (let r1 = basic_result n ec nn uc l p;
          r2 = summary_update h n l uil r1
      in if i = 1 then r1 else if i = 2 then r2 else complete_update l uil r2)"

section \<open>Map expectations\<close>

subsection \<open>\<open>_validate\<close>\<close>

text \<open>
  The resolved metrics that \<open>_validate\<close> reads with \<open>metrics.get\<close>; \<open>None\<close> stands for a
  missing key (or a \<open>None\<close> value):
  \<^item> \<open>table_row_count\<close> is \<open>"table.row_count"\<close>,
  \<^item> \<open>nonnull_unexpected_count\<close> is \<open>"column_values.nonnull.unexpected_count"\<close>,
  \<^item> \<open>map_unexpected_count\<close> is \<open>map_metric + ".unexpected_count"\<close>,
  \<^item> \<open>map_unexpected_values\<close> is \<open>map_metric + ".unexpected_values"\<close>,
  \<^item> \<open>map_unexpected_index_list\<close> is \<open>map_metric + ".unexpected_index_list"\<close>.
\<close>

record 'a map_metrics =
  table_row_count :: "int option"
  nonnull_unexpected_count :: "int option"
  map_unexpected_count :: "int option"
  map_unexpected_values :: "'a list option"
  map_unexpected_index_list :: "int list option"

text \<open>
  The success computation of \<open>_validate\<close>: \<open>success\<close> starts as \<open>None\<close> and is set by the
  \<open>if\<close>/\<open>elif\<close> chain. Subtracting \<open>None\<close> raises \<open>TypeError\<close>. The ratio is a float;
  \<open>mostly\<close>, a Python \<open>int\<close> or finite \<open>float\<close>, is given by its exact value.
\<close>

definition map_success ::
  "rat \<Rightarrow> int option \<Rightarrow> int option \<Rightarrow> int option \<Rightarrow> py_error + bool option" where
  "map_success mostly total_count null_count unexpected_count =
     (case total_count of
        None \<Rightarrow> Inr (Some True)
      | Some t \<Rightarrow>
          (case null_count of
             None \<Rightarrow> Inr (Some True)
           | Some n \<Rightarrow>
               if t - n \<noteq> 0 then
                 (case unexpected_count of
                    None \<Rightarrow> Inl TypeError
                  | Some u \<Rightarrow>
                      (case py_truediv (t - u - n) (t - n) of
                         Inl e \<Rightarrow> Inl e
                       | Inr success_ratio \<Rightarrow> Inr (Some (py_ge success_ratio mostly))))
               else if t = 0 \<or> t - n = 0 then Inr (Some True)
               else Inr None))"

text \<open>
  \<open>nonnull_count\<close>: the difference of the two counts, or \<open>None\<close> when the subtraction
  raises \<open>TypeError\<close>.
\<close>

definition nonnull_count_of :: "int option \<Rightarrow> int option \<Rightarrow> int option" where
  "nonnull_count_of total_count null_count =
     (case total_count of
        None \<Rightarrow> None
      | Some t \<Rightarrow> (case null_count of None \<Rightarrow> None | Some n \<Rightarrow> Some (t - n)))"

text \<open>
  The body of \<open>_validate\<close>, which \<open>ColumnMapExpectation\<close> and \<open>ColumnPairMapExpectation\<close>
  define with the same text. \<open>rf\<close> is the parsed result format and \<open>mostly\<close> the success
  keyword argument.
\<close>

definition map_validate ::
  "('a::linorder \<Rightarrow> bool) \<Rightarrow> result_format_dict \<Rightarrow> rat \<Rightarrow> 'a map_metrics
     \<Rightarrow> py_error + 'a return_obj" where
  "map_validate hashable rf mostly metrics =
     (case map_success mostly (table_row_count metrics) (nonnull_unexpected_count metrics)
             (map_unexpected_count metrics) of
        Inl e \<Rightarrow> Inl e
      | Inr succ \<Rightarrow>
          format_map_output hashable rf succ
            (table_row_count metrics)
            (nonnull_count_of (table_row_count metrics) (nonnull_unexpected_count metrics))
            (map_unexpected_count metrics)
            (map_unexpected_values metrics)
            (map_unexpected_index_list metrics))"



subsection \<open>\<open>get_validation_dependencies\<close>\<close>

text \<open>
  The dictionary \<open>{"result_format": ..., "metrics": {...}}\<close>. The metrics dictionary maps a
  metric name to its \<open>MetricConfiguration\<close>; \<open>mk name\<close> stands for the configuration built
  from \<open>get_metric_kwargs\<close> for that name.
\<close>

record 'm dependencies =
  dep_result_format :: result_format_dict
  dep_metrics :: "string \<rightharpoonup> 'm"

definition TableExpectation_get_validation_dependencies ::
  "(string \<Rightarrow> 'm) \<Rightarrow> string list \<Rightarrow> result_format_dict \<Rightarrow> 'm dependencies" where
  "TableExpectation_get_validation_dependencies mk metric_dependencies rf =
     \<lparr>dep_result_format = rf,
      dep_metrics = foldl (\<lambda>m name. m(name \<mapsto> mk name)) Map.empty metric_dependencies\<rparr>"

definition ColumnMapExpectation_get_validation_dependencies ::
  "(string \<Rightarrow> 'm) \<Rightarrow> string option \<Rightarrow> string list \<Rightarrow> bool \<Rightarrow> result_format_dict
     \<Rightarrow> py_error + 'm dependencies" where
  "ColumnMapExpectation_get_validation_dependencies mk map_metric metric_dependencies
       is_pandas rf =
     (let dependencies = TableExpectation_get_validation_dependencies mk metric_dependencies rf in
      case map_metric of
        None \<Rightarrow> Inl AssertionError
      | Some mm \<Rightarrow>
          if metric_dependencies \<noteq> [] then Inl AssertionError
          else
            let md0 = dep_metrics dependencies;
                md1 = md0(''column_values.nonnull.unexpected_count'' \<mapsto>
                            mk ''column_values.nonnull.unexpected_count'');
                md2 = md1(mm @ ''.unexpected_count'' \<mapsto> mk (mm @ ''.unexpected_count''));
                result_format_str = result_format (dep_result_format dependencies);
                md3 = md2(''table.row_count'' \<mapsto> mk ''table.row_count'')
            in
            if result_format_str = ''BOOLEAN_ONLY''
            then Inr (dependencies\<lparr>dep_metrics := md3\<rparr>)
            else
              let md4 = md3(mm @ ''.unexpected_values'' \<mapsto> mk (mm @ ''.unexpected_values'')) in
              if result_format_str \<in> set [''BASIC'', ''SUMMARY'']
              then Inr (dependencies\<lparr>dep_metrics := md4\<rparr>)
              else
                let md5 = md4(mm @ ''.unexpected_rows'' \<mapsto> mk (mm @ ''.unexpected_rows''));
                    md6 = (if is_pandas
                           then md5(mm @ ''.unexpected_index_list'' \<mapsto>
                                      mk (mm @ ''.unexpected_index_list''))
                           else md5)
                in Inr (dependencies\<lparr>dep_metrics := md6\<rparr>))"

definition ColumnPairMapExpectation_get_validation_dependencies ::
  "(string \<Rightarrow> 'm) \<Rightarrow> string option \<Rightarrow> string list \<Rightarrow> bool \<Rightarrow> result_format_dict
     \<Rightarrow> py_error + 'm dependencies" where
  "ColumnPairMapExpectation_get_validation_dependencies mk map_metric metric_dependencies
       is_pandas rf =
     (let dependencies = TableExpectation_get_validation_dependencies mk metric_dependencies rf in
      case map_metric of
        None \<Rightarrow> Inl AssertionError
      | Some mm \<Rightarrow>
          if metric_dependencies \<noteq> [] then Inl AssertionError
          else
            let md0 = dep_metrics dependencies;
                md1 = md0(''column_values.nonnull.unexpected_count'' \<mapsto>
                            mk ''column_values.nonnull.unexpected_count'');
                md2 = md1(mm @ ''.unexpected_count'' \<mapsto> mk (mm @ ''.unexpected_count''));
                result_format_str = result_format (dep_result_format dependencies)
            in
            if result_format_str = ''BOOLEAN_ONLY''
            then Inr (dependencies\<lparr>dep_metrics := md2\<rparr>)
            else
              let md3 = md2(''table.row_count'' \<mapsto> mk ''table.row_count'');
                  md4 = md3(mm @ ''.unexpected_values'' \<mapsto> mk (mm @ ''.unexpected_values''))
              in
              if result_format_str \<in> set [''BASIC'', ''SUMMARY'']
              then Inr (dependencies\<lparr>dep_metrics := md4\<rparr>)
              else
                let md5 = md4(mm @ ''.unexpected_rows'' \<mapsto> mk (mm @ ''.unexpected_rows''));
                    md6 = (if is_pandas
                           then md5(mm @ ''.unexpected_index_list'' \<mapsto>
                                      mk (mm @ ''.unexpected_index_list''))
                           else md5)
                in Inr (dependencies\<lparr>dep_metrics := md6\<rparr>))"

section \<open>The Spark execution engine\<close>

text \<open>
  The values of a domain kwargs dictionary: \<open>None\<close> or a string. A dictionary is a map
  from keys to values; a key mapped to \<open>KNone\<close> is present with the value \<open>None\<close>.
\<close>

datatype kwval = KNone | KStr string

type_synonym kwargs = "string \<rightharpoonup> kwval"

text \<open>\<open>d.get(k)\<close>, with \<open>None\<close> for a missing key.\<close>

definition kw_get :: "kwargs \<Rightarrow> string \<Rightarrow> kwval" where
  "kw_get d k = (case d k of None \<Rightarrow> KNone | Some v \<Rightarrow> v)"

text \<open>Python truth value: \<open>None\<close> and the empty string are false.\<close>

fun truthy :: "kwval \<Rightarrow> bool" where
  "truthy KNone = False"
| "truthy (KStr s) = (s \<noteq> [])"

text \<open>
  The engine's batches: \<open>active_batch_data\<close> (\<open>None\<close> when there is none) and
  \<open>loaded_batch_data\<close>, keyed by batch id.
\<close>

record 'df engine =
  active_batch_data :: "'df option"
  loaded_batch_data :: "string \<rightharpoonup> 'df"

text \<open>
  The calls into Spark and into the row-condition parser, which are not part of the engine's
  code and may raise:
  \<^item> \<open>filter_expr data s\<close> is \<open>data.filter(s)\<close> on a condition string,
  \<^item> \<open>parse_condition_to_spark s\<close> parses a portable condition into a column expression,
  \<^item> \<open>filter_column data c\<close> is \<open>data.filter(c)\<close> on a column expression,
  \<^item> \<open>agg_collect df cols\<close> is \<open>df.agg(*cols).collect()\<close>, a list of rows.
\<close>

record ('df, 'col, 'agg, 'v) backend =
  filter_expr :: "'df \<Rightarrow> string \<Rightarrow> py_error + 'df"
  parse_condition_to_spark :: "string \<Rightarrow> py_error + 'col"
  filter_column :: "'df \<Rightarrow> 'col \<Rightarrow> py_error + 'df"
  agg_collect :: "'df \<Rightarrow> 'agg list \<Rightarrow> py_error + 'v list list"

subsection \<open>\<open>get_compute_domain\<close>\<close>

definition select_batch :: "'df engine \<Rightarrow> kwargs \<Rightarrow> py_error + 'df" where
  "select_batch eng domain_kwargs =
     (case kw_get domain_kwargs ''batch_id'' of
        KNone \<Rightarrow>
          (case active_batch_data eng of
             Some data \<Rightarrow> Inr data
           | None \<Rightarrow> Inl ValidationError)
      | KStr batch_id \<Rightarrow>
          (case loaded_batch_data eng batch_id of
             Some data \<Rightarrow> Inr data
           | None \<Rightarrow> Inl ValidationError))"

definition apply_row_condition ::
  "('df, 'col, 'agg, 'v) backend \<Rightarrow> kwargs \<Rightarrow> 'df \<Rightarrow> py_error + 'df" where
  "apply_row_condition B domain_kwargs data =
     (case kw_get domain_kwargs ''row_condition'' of
        KNone \<Rightarrow> Inr data
      | KStr row_condition \<Rightarrow>
          if row_condition = [] then Inr data
          else
            let condition_parser = kw_get domain_kwargs ''condition_parser'' in
            if condition_parser = KStr ''spark'' then filter_expr B data row_condition
            else if condition_parser = KStr ''great_expectations__experimental__'' then
              (case parse_condition_to_spark B row_condition of
                 Inl e \<Rightarrow> Inl e
               | Inr parsed_condition \<Rightarrow> filter_column B data parsed_condition)
            else Inl GreatExpectationsError)"

definition get_compute_domain ::
  "('df, 'col, 'agg, 'v) backend \<Rightarrow> 'df engine \<Rightarrow> kwargs
     \<Rightarrow> py_error + ('df \<times> kwargs \<times> kwargs)" where
  "get_compute_domain B eng domain_kwargs =
     (case select_batch eng domain_kwargs of
        Inl e \<Rightarrow> Inl e
      | Inr data \<Rightarrow>
          if truthy (kw_get domain_kwargs ''table'') then Inl ValueError
          else
            (case apply_row_condition B domain_kwargs data of
               Inl e \<Rightarrow> Inl e
             | Inr data' \<Rightarrow>
                 (case domain_kwargs ''column'' of
                    Some c \<Rightarrow> Inr (data', domain_kwargs(''column'' := None), [''column'' \<mapsto> c])
                  | None \<Rightarrow> Inr (data', domain_kwargs, Map.empty))))"

subsection \<open>\<open>resolve_metric_bundle\<close>\<close>


text \<open>One value of the \<open>aggregates\<close> dictionary.\<close>

record ('id, 'agg) aggregate =
  column_aggregates :: "'agg list"
  ids :: "'id list"
  domain_kwargs :: kwargs








subsection \<open>Groups and aggregation passes\<close>







subsection \<open>An example backend\<close>

text \<open>
  A backend on which the engine can be evaluated: a data frame is a string, filtering appends
  the condition to it, and an aggregation pass returns one row holding the length of each
  aggregate expression. The domain id of the example is the tuple of the values of four
  domain keys.
\<close>

definition example_backend :: "(string, string, string, int) backend" where
  "example_backend =
     \<lparr>filter_expr = (\<lambda>df s. Inr (df @ '' WHERE '' @ s)),
      parse_condition_to_spark = (\<lambda>s. Inr s),
      filter_column = (\<lambda>df c. Inr (df @ '' WHERE '' @ c)),
      agg_collect = (\<lambda>df cols. Inr [map (\<lambda>c. int (length c)) cols])\<rparr>"

definition example_engine :: "string engine" where
  "example_engine =
     \<lparr>active_batch_data = Some ''batch_1'', loaded_batch_data = [''b1'' \<mapsto> ''batch_1'']\<rparr>"


section \<open>Evaluating float arithmetic\<close>

text \<open>The overflow bound as a numeral, for evaluation.\<close>

lemma double_overflow_code [code]:
  "double_overflow q \<longleftrightarrow>
     179769313486231580793728971405303415079934132710037826936173778980444968292764750946649017977587207096330286416692887910946555547851940402630657488671505820681908902000708383676273854845817711531764475730270069855571366959622842914819860834936475292719074168444365510704342711559699508093042880177904174497792
       \<le> \<bar>q\<bar>"
  by (simp add: double_overflow_def)

section \<open>Properties of the counter\<close>

lemma keys_counter_incr:
  "map fst (counter_incr x acc) = (if x \<in> fst ` set acc then map fst acc else map fst acc @ [x])"
  by (induction acc) force+

lemma distinct_counter_incr:
  "distinct (map fst acc) \<Longrightarrow> distinct (map fst (counter_incr x acc))"
  by (simp add: keys_counter_incr)

lemma map_of_counter_incr:
  "map_of (counter_incr x acc) = (map_of acc)(x \<mapsto> Suc (count_in acc x))"
  by (induction acc) (auto simp: count_in_def fun_eq_iff)

lemma count_in_counter_incr:
  "count_in (counter_incr x acc) v = count_in acc v + (if v = x then 1 else 0)"
  by (simp add: count_in_def map_of_counter_incr)

lemma counter_fold:
  "distinct (map fst acc) \<Longrightarrow>
   distinct (map fst (foldl (\<lambda>acc x. counter_incr x acc) acc xs)) \<and>
   fst ` set (foldl (\<lambda>acc x. counter_incr x acc) acc xs) = fst ` set acc \<union> set xs \<and>
   (\<forall>v. count_in (foldl (\<lambda>acc x. counter_incr x acc) acc xs) v = count_in acc v + count_list xs v)"
proof (induction xs arbitrary: acc)
  case Nil
  then show ?case by simp
next
  case (Cons x xs)
  have d: "distinct (map fst (counter_incr x acc))" using Cons.prems by (rule distinct_counter_incr)
  have k: "fst ` set (counter_incr x acc) = insert x (fst ` set acc)"
    using keys_counter_incr[of x acc, THEN arg_cong, of set] by (auto simp: image_iff split: if_splits)
  show ?case using Cons.IH[OF d] by (simp add: k count_in_counter_incr)
qed

lemma Counter_props:
  "distinct (map fst (Counter xs))" "fst ` set (Counter xs) = set xs"
  "(v, c) \<in> set (Counter xs) \<longleftrightarrow> v \<in> set xs \<and> c = count_list xs v"
proof -
  have *: "distinct (map fst ([]::('a \<times> nat) list))" by simp
  note f = counter_fold[OF *, of xs, folded Counter_def]
  show d: "distinct (map fst (Counter xs))" using f by simp
  show s: "fst ` set (Counter xs) = set xs" using f by simp
  have m: "count_in (Counter xs) v = count_list xs v" for v
    using f by (simp add: count_in_def)
  show "(v, c) \<in> set (Counter xs) \<longleftrightarrow> v \<in> set xs \<and> c = count_list xs v"
  proof
    assume a: "(v, c) \<in> set (Counter xs)"
    then have "v \<in> set xs" using s by force
    moreover have "map_of (Counter xs) v = Some c" using a d by simp
    ultimately show "v \<in> set xs \<and> c = count_list xs v" using m[of v] by (simp add: count_in_def)
  next
    assume a: "v \<in> set xs \<and> c = count_list xs v"
    then obtain c' where c': "(v, c') \<in> set (Counter xs)" using s by force
    then have "map_of (Counter xs) v = Some c'" using d by simp
    then have "c' = c" using m[of v] a by (simp add: count_in_def)
    then show "(v, c) \<in> set (Counter xs)" using c' by simp
  qed
qed

lemma length_Counter: "length (Counter xs) = card (set xs)"
  using Counter_props(1,2)[of xs] distinct_card[of "map fst (Counter xs)"] by simp


lemma most_common_subset: "set (most_common n items) \<subseteq> set items"
  unfolding most_common_def by (metis set_sort set_take_subset)

lemma most_common_length: "length (most_common n items) = min n (length items)"
  unfolding most_common_def by (simp add: min.commute)

lemma most_common_distinct:
  "distinct (map fst items) \<Longrightarrow> distinct (map fst (most_common n items))"
proof -
  assume d: "distinct (map fst items)"
  then have "distinct items" "inj_on fst (set items)" by (simp_all add: distinct_map)
  then have "distinct (most_common n items)" "inj_on fst (set (most_common n items))"
    using most_common_subset[of n items] 
    by (simp_all add: most_common_def inj_on_subset)
  then show ?thesis by (simp add: distinct_map)
qed

lemma most_common_dominates:
  assumes "(v, c) \<in> set (most_common n items)" "(w, d) \<in> set items"
    "(w, d) \<notin> set (most_common n items)"
  shows "d \<le> c"
proof -
  let ?s = "sort_key (\<lambda>(v, c). - int c) items"
  let ?k = "\<lambda>(v::'a, c::nat). - int c"
  have "sorted (map ?k (take n ?s) @ map ?k (drop n ?s))"
    by (metis append_take_drop_id map_append sorted_sort_key)
  then have "\<forall>x\<in>set (map ?k (take n ?s)). \<forall>y\<in>set (map ?k (drop n ?s)). x \<le> y"
    using sorted_append by blast
  then have *: "\<forall>x\<in>set (take n ?s). \<forall>y\<in>set (drop n ?s). ?k x \<le> ?k y"
    by simp
  have "set ?s = set (take n ?s) \<union> set (drop n ?s)"
    by (metis append_take_drop_id set_append)
  then have "(w, d) \<in> set (drop n ?s)" using assms(2,3) by (simp add: most_common_def)
  with * assms(1) show ?thesis by (fastforce simp: most_common_def)
qed

lemma occurs_before_append: "a \<in> set xs \<Longrightarrow> b \<in> set ys \<Longrightarrow> occurs_before (xs @ ys) a b"
  by (induction xs) auto

lemma occurs_before_filter:
  "occurs_before l a b \<Longrightarrow> P a \<Longrightarrow> P b \<Longrightarrow> occurs_before (filter P l) a b"
  by (induction l) auto

lemma occurs_before_unfilter: "occurs_before (filter P l) a b \<Longrightarrow> occurs_before l a b"
  by (induction l) (auto split: if_splits)

lemma occurs_before_map: "occurs_before l a b \<Longrightarrow> occurs_before (map f l) (f a) (f b)"
  by (induction l) auto

lemma occurs_before_snoc:
  "occurs_before (l @ [x]) a b \<longleftrightarrow> occurs_before l a b \<or> (a \<in> set l \<and> b = x)"
  by (induction l) auto

lemma Counter_snoc: "Counter (xs @ [x]) = counter_incr x (Counter xs)"
  by (simp add: Counter_def)

lemma takeWhile_snoc_mono: "v \<in> set (takeWhile P xs) \<Longrightarrow> v \<in> set (takeWhile P (xs @ ys))"
  by (simp add: takeWhile_append) (metis takeWhile_eq_all_conv)

lemma Counter_first_occurrence:
  "occurs_before (map fst (Counter xs)) v w \<Longrightarrow> v \<in> set (takeWhile (\<lambda>x. x \<noteq> w) xs)"
proof (induction xs rule: rev_induct)
  case Nil
  then show ?case by (simp add: Counter_def)
next
  case (snoc x xs)
  have keys: "fst ` set (Counter xs) = set xs" by (rule Counter_props(2))
  show ?case
  proof (cases "x \<in> set xs")
    case True
    then have "map fst (Counter (xs @ [x])) = map fst (Counter xs)"
      by (simp add: Counter_snoc keys_counter_incr keys)
    then show ?thesis using snoc by (simp add: takeWhile_snoc_mono)
  next
    case False
    then have k: "map fst (Counter (xs @ [x])) = map fst (Counter xs) @ [x]"
      by (simp add: Counter_snoc keys_counter_incr keys)
    from snoc.prems have "occurs_before (map fst (Counter xs)) v w \<or> (v \<in> set xs \<and> w = x)"
      using keys by (simp add: k occurs_before_snoc)
    then show ?thesis
    proof
      assume "occurs_before (map fst (Counter xs)) v w"
      then show ?thesis using snoc.IH by (simp add: takeWhile_snoc_mono)
    next
      assume a: "v \<in> set xs \<and> w = x"
      then have "takeWhile (\<lambda>y. y \<noteq> w) (xs @ [x]) = xs" using False
        by (simp add: takeWhile_append)
      then show ?thesis using a by simp
    qed
  qed
qed

lemma most_common_tie:
  assumes "(v, c) \<in> set (most_common n items)" "(w, c) \<in> set items"
    "(w, c) \<notin> set (most_common n items)"
  shows "occurs_before (map fst items) v w"
proof -
  let ?f = "\<lambda>(v::'a, c::nat). - int c"
  let ?s = "sort_key ?f items"
  have "set ?s = set (take n ?s) \<union> set (drop n ?s)"
    by (metis append_take_drop_id set_append)
  then have "(w, c) \<in> set (drop n ?s)" using assms(2,3) by (simp add: most_common_def)
  moreover have "(v, c) \<in> set (take n ?s)" using assms(1) by (simp add: most_common_def)
  ultimately have "occurs_before (take n ?s @ drop n ?s) (v, c) (w, c)"
    by (rule occurs_before_append[rotated])
  then have "occurs_before ?s (v, c) (w, c)" by simp
  then have "occurs_before (filter (\<lambda>y. ?f y = - int c) ?s) (v, c) (w, c)"
    by (rule occurs_before_filter) simp_all
  then have "occurs_before (filter (\<lambda>y. ?f y = - int c) items) (v, c) (w, c)"
    by (simp only: sort_key_stable)
  then have "occurs_before items (v, c) (w, c)" by (rule occurs_before_unfilter)
  then show ?thesis using occurs_before_map[of items "(v, c)" "(w, c)" fst] by simp
qed

lemma sorted_wrt_key:
  assumes "sorted (map f xs)" "distinct (map f xs)"
  shows "sorted_wrt (\<lambda>a b. f a < f b) xs"
  using assms by (induction xs) (auto simp: less_le)

lemma counts_key_less:
  "((\<lambda>(v, c). (- int c, v)) (v, c) < (\<lambda>(v, c). (- int c, v)) (w, d)) = (d < c \<or> (d = c \<and> v < w))"
  by auto

lemma partial_unexpected_counts_props:
  fixes xs :: "'a::linorder list"
  assumes h: "list_all hashable xs" and n: "0 < n"
  shows "\<exists>out. partial_unexpected_counts hashable n xs = PCounts out
     \<and> length out = min (nat n) (card (set xs))
     \<and> (\<forall>(v, c) \<in> set out. v \<in> set xs \<and> c = count_list xs v)
     \<and> sorted_wrt (\<lambda>(v, c) (w, d). d < c \<or> (d = c \<and> v < w)) out
     \<and> (\<forall>w \<in> set xs. w \<notin> fst ` set out \<longrightarrow>
          (\<forall>(v, c) \<in> set out. count_list xs w < c
              \<or> (count_list xs w = c \<and> v \<in> set (takeWhile (\<lambda>x. x \<noteq> w) xs))))"
proof -
  let ?k = "\<lambda>(v::'a, c::nat). (- int c, v)"
  let ?mc = "most_common (nat n) (Counter xs)"
  let ?out = "sort_key ?k ?mc"
  have eq: "partial_unexpected_counts hashable n xs = PCounts ?out"
    using h by (simp add: partial_unexpected_counts_def)
  have len: "length ?out = min (nat n) (card (set xs))"
    by (simp add: most_common_length length_Counter)
  have sub: "set ?out \<subseteq> set (Counter xs)"
    using most_common_subset[of "nat n" "Counter xs"] by simp
  have mem: "\<forall>(v, c) \<in> set ?out. v \<in> set xs \<and> c = count_list xs v"
    using sub Counter_props(3)[of _ _ xs] by blast
  have dk: "distinct (map fst ?mc)"
    by (rule most_common_distinct) (rule Counter_props(1))
  have inj: "inj_on ?k (set ?mc)"
    by (auto simp: inj_on_def)
  have "distinct ?mc" using dk by (simp add: distinct_map)
  then have "distinct (map ?k ?out)" using inj by (simp add: distinct_map)
  moreover have "sorted (map ?k ?out)" by (rule sorted_sort_key)
  ultimately have "sorted_wrt (\<lambda>a b. ?k a < ?k b) ?out" by (rule sorted_wrt_key[rotated])
  then have srt: "sorted_wrt (\<lambda>(v, c) (w, d). d < c \<or> (d = c \<and> v < w)) ?out"
    by (rule sorted_wrt_mono_rel[rotated]) auto
  have dom: "\<forall>w \<in> set xs. w \<notin> fst ` set ?out \<longrightarrow>
          (\<forall>(v, c) \<in> set ?out. count_list xs w < c
              \<or> (count_list xs w = c \<and> v \<in> set (takeWhile (\<lambda>x. x \<noteq> w) xs)))"
  proof (intro ballI impI)
    fix w p assume w: "w \<in> set xs" and nw: "w \<notin> fst ` set ?out" and p: "p \<in> set ?out"
    obtain v c where vc: "p = (v, c)" by (cases p)
    have 1: "(v, c) \<in> set ?mc" using p vc by simp
    have 2: "(w, count_list xs w) \<in> set (Counter xs)" using w by (simp add: Counter_props(3))
    have 3: "(w, count_list xs w) \<notin> set ?mc" using nw by force
    have le: "count_list xs w \<le> c" by (rule most_common_dominates[OF 1 2 3])
    have "v \<in> set (takeWhile (\<lambda>x. x \<noteq> w) xs)" if "count_list xs w = c"
      using most_common_tie[OF 1] 2 3 that Counter_first_occurrence by fastforce
    then show "case p of (v, c) \<Rightarrow> count_list xs w < c
              \<or> (count_list xs w = c \<and> v \<in> set (takeWhile (\<lambda>x. x \<noteq> w) xs))"
      using le vc by auto
  qed
  show ?thesis using eq len mem srt dom by blast
qed


section \<open>Properties of the result formatter\<close>

lemma format_map_output_success:
  "format_map_output h rf s ec nn uc ul uil = Inr p \<Longrightarrow> success p = s"
  by (auto simp: format_map_output_def Let_def split: if_splits sum.splits option.splits)

lemma percent_of_err:
  "b > 0 \<Longrightarrow> percent_of a b = Inl e \<Longrightarrow> e = TypeError \<or> e = OverflowError"
  by (auto simp: percent_of_def py_truediv_def Let_def split: option.splits if_splits)

lemma compute_percents_err:
  "compute_percents ec nn uc = Inl e \<Longrightarrow> e = TypeError \<or> e = OverflowError"
  by (auto simp: compute_percents_def Let_def split: option.splits if_splits sum.splits
      dest: percent_of_err)

lemma format_map_output_err:
  "format_map_output h rf s ec nn uc ul uil = Inl e \<Longrightarrow>
   e = TypeError \<or> e = OverflowError \<or> e = ValueError"
  by (auto simp: format_map_output_def Let_def split: option.splits if_splits sum.splits
      dest: compute_percents_err)

lemma format_unknown:
  assumes "result_format rf \<notin> {''BOOLEAN_ONLY'', ''BASIC'', ''SUMMARY'', ''COMPLETE''}"
  shows "\<exists>e. format_map_output h rf s ec nn uc ul uil = Inl e"
  using assms by (auto simp: format_map_output_def Let_def split: sum.splits option.splits)

lemma compute_percents_zero:
  "compute_percents (Some 0) nn uc =
     Inr \<lparr>missing_count = (case nn of None \<Rightarrow> None | Some k \<Rightarrow> Some (0 - k)), unexpected_percent = None,
          missing_percent = None, unexpected_percent_nonmissing = None\<rparr>"
  by (simp add: compute_percents_def)

lemma compute_percents_pos:
  assumes "ec > 0" "compute_percents (Some ec) nn (Some u) = Inr p"
  shows "\<exists>q. py_truediv u ec = Inr q \<and> unexpected_percent p = Some (py_times_100 q)"
  using assms
  by (auto simp: compute_percents_def Let_def percent_of_def
      split: option.splits if_splits sum.splits)

lemma compute_percents_known:
  "compute_percents (Some ec) nn (Some u) = Inl e \<Longrightarrow> e = OverflowError"
  by (auto simp: compute_percents_def Let_def percent_of_def py_truediv_def
      split: option.splits if_splits sum.splits)

lemma py_truediv_in_range:
  assumes "b \<noteq> 0" "\<bar>a\<bar> \<le> \<bar>b\<bar>"
  shows "\<exists>q. py_truediv a b = Inr q"
proof -
  have "\<bar>rat_of_int a / rat_of_int b\<bar> \<le> 1"
    using assms by (simp add: abs_divide divide_le_eq_1 flip: of_int_abs)
  moreover have "(1::rat) < 2 ^ 1024 - 2 ^ 970" by simp
  ultimately have "\<not> double_overflow (rat_of_int a / rat_of_int b)"
    by (simp add: double_overflow_def)
  then show ?thesis using assms(1) by (simp add: py_truediv_def Let_def)
qed

lemma percent_of_in_range:
  assumes "b \<noteq> 0" "\<bar>a\<bar> \<le> \<bar>b\<bar>"
  shows "\<exists>q. percent_of (Some a) b = Inr q"
  using py_truediv_in_range[OF assms] by (auto simp: percent_of_def)

lemma compute_percents_in_range:
  assumes u0: "0 \<le> u" and uc: "u \<le> c"
    and n: "case nn of None \<Rightarrow> True | Some n \<Rightarrow> u \<le> n \<and> n \<le> c"
  shows "\<exists>p. compute_percents (Some c) nn (Some u) = Inr p"
proof (cases "0 < c")
  case False
  then show ?thesis by (simp add: compute_percents_def)
next
  case c: True
  from c u0 uc obtain up where up: "percent_of (Some u) c = Inr up"
    using percent_of_in_range[of c u] by auto
  show ?thesis
  proof (cases nn)
    case None
    then show ?thesis using c up by (simp add: compute_percents_def)
  next
    case (Some k)
    then have k: "u \<le> k" "k \<le> c" using n by auto
    from c k u0 obtain mp where mp: "percent_of (Some (c - k)) c = Inr mp"
      using percent_of_in_range[of c "c - k"] by auto
    show ?thesis
    proof (cases "0 < k")
      case True
      then obtain upn where upn: "percent_of (Some u) k = Inr upn"
        using percent_of_in_range[of k u] k u0 by auto
      show ?thesis using c Some up mp upn True by (simp add: compute_percents_def)
    next
      case False
      then show ?thesis using c Some up mp by (simp add: compute_percents_def)
    qed
  qed
qed


lemma format_limit_zero:
  assumes "partial_unexpected_count rf \<le> 0" "format_map_output h rf s ec nn uc ul uil = Inr p"
    "result p = Some r"
  shows "r ''partial_unexpected_counts'' = None \<and> r ''partial_unexpected_index_list'' = None"
  using assms
  by (auto simp: format_map_output_def Let_def basic_result_def summary_update_def complete_update_def
      split: option.splits if_splits sum.splits)


lemma format_boolean_only:
  "result_format rf = ''BOOLEAN_ONLY'' \<Longrightarrow>
   format_map_output h rf s ec nn uc ul uil = Inr \<lparr>success = s, result = None\<rparr>"
  by (simp add: format_map_output_def)

lemma tier_index_cases:
  assumes "tier_index f = Some i"
  shows "(f = ''BOOLEAN_ONLY'' \<and> i = 0) \<or> (f = ''BASIC'' \<and> i = 1) \<or> (f = ''SUMMARY'' \<and> i = 2)
     \<or> (f = ''COMPLETE'' \<and> i = 3)"
  using assms by (simp add: tier_index_def split: if_splits)

lemma format_upper:
  assumes "tier_index f = Some i" "1 \<le> i"
  shows "format_map_output h \<lparr>result_format = f, partial_unexpected_count = n\<rparr> s ec nn uc ul uil =
     (case compute_percents ec nn uc of
        Inl e \<Rightarrow> Inl e
      | Inr p \<Rightarrow>
          (case ul of
             None \<Rightarrow> Inl TypeError
           | Some l \<Rightarrow> Inr \<lparr>success = s,
                 result = Some (tier_result h i n ec nn uc l uil p)\<rparr>))"
proof -
  consider "f = ''BASIC''" "i = 1" | "f = ''SUMMARY''" "i = 2" | "f = ''COMPLETE''" "i = 3"
    using tier_index_cases[OF assms(1)] assms(2) by auto
  then show ?thesis
  proof cases
    case 1
    then show ?thesis
      by (simp add: format_map_output_def tier_result_def Let_def split: sum.splits option.splits)
  next
    case 2
    then show ?thesis
      by (simp add: format_map_output_def tier_result_def Let_def split: sum.splits option.splits)
  next
    case 3
    then show ?thesis
      by (simp add: format_map_output_def tier_result_def Let_def split: sum.splits option.splits)
  qed
qed

lemma basic_result_no_summary_keys:
  "basic_result n ec nn uc l p ''partial_unexpected_index_list'' = None"
  "basic_result n ec nn uc l p ''partial_unexpected_counts'' = None"
  "basic_result n ec nn uc l p ''unexpected_list'' = None"
  "basic_result n ec nn uc l p ''unexpected_index_list'' = None"
  by (simp_all add: basic_result_def Let_def)

lemma summary_update_other:
  "k \<noteq> ''partial_unexpected_index_list'' \<Longrightarrow> k \<noteq> ''partial_unexpected_counts'' \<Longrightarrow>
   summary_update h n l uil r k = r k"
  by (simp add: summary_update_def)

lemma summary_update_extends:
  assumes "r ''partial_unexpected_index_list'' = None" "r ''partial_unexpected_counts'' = None"
  shows "r \<subseteq>\<^sub>m summary_update h n l uil r"
  unfolding map_le_def
proof
  fix k assume "k \<in> dom r"
  then have "k \<noteq> ''partial_unexpected_index_list''" "k \<noteq> ''partial_unexpected_counts''"
    using assms by auto
  then show "r k = summary_update h n l uil r k" by (simp add: summary_update_other)
qed

lemma complete_update_extends:
  assumes "r ''unexpected_list'' = None" "r ''unexpected_index_list'' = None"
  shows "r \<subseteq>\<^sub>m complete_update l uil r"
  unfolding map_le_def
proof
  fix k assume "k \<in> dom r"
  then have "k \<noteq> ''unexpected_list''" "k \<noteq> ''unexpected_index_list''"
    using assms by auto
  then show "r k = complete_update l uil r k" by (simp add: complete_update_def)
qed

lemma tier_result_mono:
  assumes "1 \<le> i" "i \<le> j" "j \<le> 3"
  shows "tier_result h i n ec nn uc l uil p \<subseteq>\<^sub>m tier_result h j n ec nn uc l uil p"
proof -
  let ?r1 = "basic_result n ec nn uc l p"
  let ?r2 = "summary_update h n l uil ?r1"
  let ?r3 = "complete_update l uil ?r2"
  have a: "?r1 \<subseteq>\<^sub>m ?r2"
    by (rule summary_update_extends) (rule basic_result_no_summary_keys)+
  have b: "?r2 \<subseteq>\<^sub>m ?r3"
    by (rule complete_update_extends) (simp_all add: summary_update_other basic_result_no_summary_keys)
  have c: "?r1 \<subseteq>\<^sub>m ?r3" using a b by (rule map_le_trans)
  have "i = 1 \<or> i = 2 \<or> i = 3" "j = 1 \<or> j = 2 \<or> j = 3" using assms by auto
  then show ?thesis using a b c assms(2) by (auto simp: tier_result_def Let_def)
qed

text \<open>
  Claim C4. For fixed raw inputs and a fixed \<open>partial_unexpected_count\<close> limit \<open>n\<close>, the
  payloads of the tiers BOOLEAN_ONLY, BASIC, SUMMARY and COMPLETE form an increasing chain:
  whenever a tier \<open>hi\<close> returns a payload \<open>q\<close>, every tier \<open>lo\<close> below it returns a payload
  too, and every field of that payload is a field of \<open>q\<close> with the same value.
\<close>

theorem format_map_output_tiers_chain:
  assumes lo: "tier_index lo = Some i" and hi: "tier_index hi = Some j" and le: "i \<le> j"
    and hiq: "format_map_output h \<lparr>result_format = hi, partial_unexpected_count = n\<rparr> s ec nn uc ul uil = Inr q"
  shows "\<exists>p. format_map_output h \<lparr>result_format = lo, partial_unexpected_count = n\<rparr> s ec nn uc ul uil = Inr p
            \<and> payload_le p q"
proof (cases "i = 0")
  case True
  then have "lo = ''BOOLEAN_ONLY''" using tier_index_cases[OF lo] by auto
  then have "format_map_output h \<lparr>result_format = lo, partial_unexpected_count = n\<rparr> s ec nn uc ul uil
      = Inr \<lparr>success = s, result = None\<rparr>" by (simp add: format_boolean_only)
  moreover have "success q = s" using hiq by (rule format_map_output_success)
  ultimately show ?thesis by (simp add: payload_le_def)
next
  case False
  then have i1: "1 \<le> i" and j1: "1 \<le> j" using le by auto
  have j3: "j \<le> 3" using tier_index_cases[OF hi] by auto
  note fl = format_upper[OF lo i1, of h n s ec nn uc ul uil]
  note fh = format_upper[OF hi j1, of h n s ec nn uc ul uil]
  from hiq fh obtain pc l where pc: "compute_percents ec nn uc = Inr pc" and l: "ul = Some l"
    and q: "q = \<lparr>success = s, result = Some (tier_result h j n ec nn uc l uil pc)\<rparr>"
    by (auto split: sum.splits option.splits)
  show ?thesis using fl pc l q tier_result_mono[OF i1 le j3, of h n ec nn uc l uil pc]
    by (simp add: payload_le_def)
qed

lemma map_validate_success_field:
  assumes "map_validate h rf mostly m = Inr p"
  shows "map_success mostly (table_row_count m) (nonnull_unexpected_count m)
           (map_unexpected_count m) = Inr (success p)"
  using assms by (auto simp: map_validate_def split: sum.splits dest: format_map_output_success)

lemma map_success_branches:
  "map_success mostly None n u = Inr (Some True)"
  "map_success mostly t None u = Inr (Some True)"
  "t1 - n1 \<noteq> 0 \<Longrightarrow>
     map_success mostly (Some t1) (Some n1) (Some u1)
       = (case py_truediv (t1 - u1 - n1) (t1 - n1) of
            Inl e \<Rightarrow> Inl e
          | Inr success_ratio \<Rightarrow> Inr (Some (py_ge success_ratio mostly)))"
  "t2 - n2 = 0 \<Longrightarrow> map_success mostly (Some t2) (Some n2) u = Inr (Some True)"
  by (simp_all add: map_success_def split: option.splits)

text \<open>
  The literals \<open>0.9\<close> and \<open>0.8\<close> are the doubles nearest to \<open>9 / 10\<close> and \<open>8 / 10\<close>. With
  counts 10, 2 and 1 the ratio is \<open>0.875\<close>; with counts 10, 0 and 1 it is the double \<open>0.9\<close>.
\<close>

lemma map_success_examples:
  "map_success (round_double (9 / 10)) (Some 10) (Some 2) (Some 1) = Inr (Some False)"
  "map_success (round_double (8 / 10)) (Some 10) (Some 2) (Some 1) = Inr (Some True)"
  "map_success (round_double (9 / 10)) (Some 10) (Some 0) (Some 1) = Inr (Some True)"
  by code_simp+

lemma map_validate_unknown_total:
  assumes "table_row_count metrics = None" "result_format rf \<noteq> ''BOOLEAN_ONLY''"
  shows "map_validate h rf mostly metrics = Inl TypeError"
  using assms
  by (simp add: map_validate_def map_success_def format_map_output_def compute_percents_def)

lemma map_validate_unknown_total_boolean_only:
  assumes "table_row_count metrics = None" "result_format rf = ''BOOLEAN_ONLY''"
  shows "map_validate h rf mostly metrics = Inr \<lparr>success = Some True, result = None\<rparr>"
  using assms
  by (simp add: map_validate_def map_success_def format_map_output_def)


text \<open>
  Claim C8. When the result format is none of BOOLEAN_ONLY, BASIC, SUMMARY and COMPLETE,
  \<open>_format_map_output\<close> raises: it returns no payload. With known counts and a list the
  exception is the \<open>ValueError\<close> of its last line, or the \<open>OverflowError\<close> of a quotient too
  large for a float; with \<open>0 \<le> unexpected_count \<le> nonnull_count \<le> element_count\<close>
  (\<open>nonnull_count\<close> may be \<open>None\<close>) it is the \<open>ValueError\<close>.
\<close>

theorem format_map_output_unknown_format:
  assumes "result_format rf \<notin> {''BOOLEAN_ONLY'', ''BASIC'', ''SUMMARY'', ''COMPLETE''}"
  shows "(\<exists>e. format_map_output h rf s ec nn uc ul uil = Inl e)
     \<and> (\<forall>c u l. ec = Some c \<and> uc = Some u \<and> ul = Some l \<longrightarrow>
            format_map_output h rf s ec nn uc ul uil = Inl ValueError
            \<or> format_map_output h rf s ec nn uc ul uil = Inl OverflowError)
     \<and> (\<forall>c u l. ec = Some c \<and> uc = Some u \<and> ul = Some l \<and> 0 \<le> u \<and> u \<le> c
            \<and> (case nn of None \<Rightarrow> True | Some n \<Rightarrow> u \<le> n \<and> n \<le> c) \<longrightarrow>
            format_map_output h rf s ec nn uc ul uil = Inl ValueError)"
proof -
  have "\<exists>e. format_map_output h rf s ec nn uc ul uil = Inl e"
    using assms by (rule format_unknown)
  moreover have "format_map_output h rf s (Some c) nn (Some u) (Some l) uil = Inl ValueError
      \<or> format_map_output h rf s (Some c) nn (Some u) (Some l) uil = Inl OverflowError" for c u l
    using assms
    by (auto simp: format_map_output_def Let_def split: sum.splits dest: compute_percents_known)
  moreover have "format_map_output h rf s (Some c) nn (Some u) (Some l) uil = Inl ValueError"
    if "0 \<le> u" "u \<le> c" "case nn of None \<Rightarrow> True | Some n \<Rightarrow> u \<le> n \<and> n \<le> c" for c u l
  proof -
    from compute_percents_in_range[OF that] obtain p
      where "compute_percents (Some c) nn (Some u) = Inr p" by blast
    then show ?thesis using assms by (simp add: format_map_output_def Let_def)
  qed
  ultimately show ?thesis by blast
qed

theorem format_map_output_unknown_format_witness:
  "result_format \<lparr>result_format = ''FULL'', partial_unexpected_count = 20\<rparr>
      \<notin> {''BOOLEAN_ONLY'', ''BASIC'', ''SUMMARY'', ''COMPLETE''}
   \<and> (0::int) \<le> 1 \<and> (1::int) \<le> 2 \<and> (2::int) \<le> 4
   \<and> format_map_output (\<lambda>_. True) \<lparr>result_format = ''FULL'', partial_unexpected_count = 20\<rparr>
        (Some True) (Some 4) (Some 2) (Some 1) (Some [''x'']) None = Inl ValueError"
proof -
  have pct: "percent_of (Some 1) 4 = Inr (Float 25)" "percent_of (Some 2) 4 = Inr (Float 50)"
    "percent_of (Some 1) 2 = Inr (Float 50)"
    by code_simp+
  have "format_map_output (\<lambda>_. True) \<lparr>result_format = ''FULL'', partial_unexpected_count = 20\<rparr>
        (Some True) (Some 4) (Some 2) (Some 1) (Some [''x'']) None = Inl ValueError"
    by (simp add: format_map_output_def compute_percents_def pct Let_def)
  then show ?thesis
    using format_map_output_unknown_format
      [of "\<lparr>result_format = ''FULL'', partial_unexpected_count = 20\<rparr>"
       "(\<lambda>_. True)" "Some True" "Some 4" "Some 2" "Some 1" "Some [''x'']" None]
    by simp
qed

theorem format_map_output_tiers_chain_witness:
  "tier_index ''BASIC'' = Some 1 \<and> tier_index ''COMPLETE'' = Some 3 \<and> (1::nat) \<le> 3
   \<and> format_map_output (\<lambda>_. True) \<lparr>result_format = ''COMPLETE'', partial_unexpected_count = 2\<rparr>
         (Some False) (Some 4) (Some 4) (Some 3) (Some [''a'', ''a'', ''b'']) None
       = Inr \<lparr>success = Some False,
              result = Some [''element_count'' \<mapsto> PInt 4, ''unexpected_count'' \<mapsto> PInt 3,
                 ''unexpected_percent'' \<mapsto> PFloat (Float 75),
                 ''partial_unexpected_list'' \<mapsto> PList [''a'', ''a''],
                 ''missing_count'' \<mapsto> PInt 0, ''missing_percent'' \<mapsto> PFloat (Float 0),
                 ''unexpected_percent_nonmissing'' \<mapsto> PFloat (Float 75),
                 ''partial_unexpected_index_list'' \<mapsto> PNone,
                 ''partial_unexpected_counts'' \<mapsto> PCounts [(''a'', 2), (''b'', 1)],
                 ''unexpected_list'' \<mapsto> PList [''a'', ''a'', ''b''],
                 ''unexpected_index_list'' \<mapsto> PNone]\<rparr>
   \<and> (\<exists>p. format_map_output (\<lambda>_. True) \<lparr>result_format = ''BASIC'', partial_unexpected_count = 2\<rparr>
              (Some False) (Some 4) (Some 4) (Some 3) (Some [''a'', ''a'', ''b'']) None = Inr p
          \<and> payload_le p
               \<lparr>success = Some False,
                result = Some [''element_count'' \<mapsto> PInt 4, ''unexpected_count'' \<mapsto> PInt 3,
                 ''unexpected_percent'' \<mapsto> PFloat (Float 75),
                 ''partial_unexpected_list'' \<mapsto> PList [''a'', ''a''],
                 ''missing_count'' \<mapsto> PInt 0, ''missing_percent'' \<mapsto> PFloat (Float 0),
                 ''unexpected_percent_nonmissing'' \<mapsto> PFloat (Float 75),
                 ''partial_unexpected_index_list'' \<mapsto> PNone,
                 ''partial_unexpected_counts'' \<mapsto> PCounts [(''a'', 2), (''b'', 1)],
                 ''unexpected_list'' \<mapsto> PList [''a'', ''a'', ''b''],
                 ''unexpected_index_list'' \<mapsto> PNone]\<rparr>)"
proof -
  have pct: "percent_of (Some 3) 4 = Inr (Float 75)" "percent_of (Some 0) 4 = Inr (Float 0)"
    by code_simp+
  have i: "tier_index ''BASIC'' = Some 1" and j: "tier_index ''COMPLETE'' = Some 3"
    by (simp_all add: tier_index_def)
  have le: "(1::nat) \<le> 3" by simp
  have pc: "partial_unexpected_counts (\<lambda>_. True) 2 [''a'', ''a'', ''b'']
      = PCounts [(''a'', 2), (''b'', 1)]"
    by (simp add: partial_unexpected_counts_def most_common_def Counter_def)
  have q: "format_map_output (\<lambda>_. True) \<lparr>result_format = ''COMPLETE'', partial_unexpected_count = 2\<rparr>
         (Some False) (Some 4) (Some 4) (Some 3) (Some [''a'', ''a'', ''b'']) None
       = Inr \<lparr>success = Some False,
              result = Some [''element_count'' \<mapsto> PInt 4, ''unexpected_count'' \<mapsto> PInt 3,
                 ''unexpected_percent'' \<mapsto> PFloat (Float 75),
                 ''partial_unexpected_list'' \<mapsto> PList [''a'', ''a''],
                 ''missing_count'' \<mapsto> PInt 0, ''missing_percent'' \<mapsto> PFloat (Float 0),
                 ''unexpected_percent_nonmissing'' \<mapsto> PFloat (Float 75),
                 ''partial_unexpected_index_list'' \<mapsto> PNone,
                 ''partial_unexpected_counts'' \<mapsto> PCounts [(''a'', 2), (''b'', 1)],
                 ''unexpected_list'' \<mapsto> PList [''a'', ''a'', ''b''],
                 ''unexpected_index_list'' \<mapsto> PNone]\<rparr>"
    by (simp add: format_map_output_def compute_percents_def pct
        basic_result_def summary_update_def complete_update_def py_slice_to_def Let_def pc)
  show ?thesis
    using i j le q format_map_output_tiers_chain [OF i j le q] by simp
qed

text \<open>
  Claim C9. With \<open>element_count = 0\<close> the three percentages are set to \<open>None\<close> and nothing
  is divided: \<open>_format_map_output\<close> never raises \<open>ZeroDivisionError\<close>, for any input. At
  BASIC and above the payload then has \<open>unexpected_percent\<close> null, and \<open>missing_percent\<close> and
  \<open>unexpected_percent_nonmissing\<close> null as well (these two fields are part of the payload
  when \<open>nonnull_count\<close> is known, for every \<open>element_count\<close>). With \<open>element_count > 0\<close>,
  the \<open>unexpected_percent\<close> of every payload returned is the float
  \<open>unexpected_count / element_count * 100\<close>: the correctly rounded quotient, times 100 and
  rounded again. With known counts the call returns a payload unless a quotient is too large
  for a float, which raises \<open>OverflowError\<close>; with
  \<open>0 \<le> unexpected_count \<le> nonnull_count \<le> element_count\<close> (\<open>nonnull_count\<close> may be \<open>None\<close>)
  it returns a payload.
\<close>

theorem format_map_output_zero_division_guard:
  "(\<exists>mc. compute_percents (Some 0) nn uc
           = Inr \<lparr>missing_count = mc, unexpected_percent = None, missing_percent = None,
                  unexpected_percent_nonmissing = None\<rparr>)
   \<and> format_map_output h rf s ec nn uc ul uil \<noteq> Inl ZeroDivisionError
   \<and> (tier_index (result_format rf) = Some i \<and> 1 \<le> i \<and> ul = Some l \<longrightarrow>
        (\<exists>p r. format_map_output h rf s (Some 0) nn uc ul uil = Inr p \<and> result p = Some r
           \<and> r ''unexpected_percent'' = Some PNone
           \<and> (\<forall>k \<in> {''missing_percent'', ''unexpected_percent_nonmissing''}.
                 r k = (if nn = None then None else Some PNone))))
   \<and> (tier_index (result_format rf) = Some i \<and> 1 \<le> i \<and> ul = Some l \<and> 0 < c \<longrightarrow>
        format_map_output h rf s (Some c) nn (Some u) ul uil = Inl OverflowError
        \<or> (\<exists>p r q. format_map_output h rf s (Some c) nn (Some u) ul uil = Inr p
              \<and> result p = Some r
              \<and> py_truediv u c = Inr q
              \<and> r ''unexpected_percent'' = Some (PFloat (py_times_100 q))))
   \<and> (tier_index (result_format rf) = Some i \<and> 1 \<le> i \<and> ul = Some l \<and> 0 < c
        \<and> 0 \<le> u \<and> u \<le> c \<and> (case nn of None \<Rightarrow> True | Some n \<Rightarrow> u \<le> n \<and> n \<le> c) \<longrightarrow>
        (\<exists>p. format_map_output h rf s (Some c) nn (Some u) ul uil = Inr p))"
proof -
  have a: "\<exists>mc. compute_percents (Some 0) nn uc
           = Inr \<lparr>missing_count = mc, unexpected_percent = None, missing_percent = None,
                  unexpected_percent_nonmissing = None\<rparr>"
    by (simp add: compute_percents_zero)
  have b: "format_map_output h rf s ec nn uc ul uil \<noteq> Inl ZeroDivisionError"
    using format_map_output_err[of h rf s ec nn uc ul uil ZeroDivisionError] by auto
  have keep: "tier_result h i n ec' nn uc' l uil p k = basic_result n ec' nn uc' l p k"
    if "k \<in> {''unexpected_percent'', ''missing_percent'', ''unexpected_percent_nonmissing''}"
    for n ec' uc' p k
    using that by (auto simp: tier_result_def Let_def summary_update_def complete_update_def)
  have rf: "rf = \<lparr>result_format = result_format rf,
                  partial_unexpected_count = partial_unexpected_count rf\<rparr>"
    by simp
  have c: "\<exists>p r. format_map_output h rf s (Some 0) nn uc ul uil = Inr p \<and> result p = Some r
           \<and> r ''unexpected_percent'' = Some PNone
           \<and> (\<forall>k \<in> {''missing_percent'', ''unexpected_percent_nonmissing''}.
                 r k = (if nn = None then None else Some PNone))"
    if t: "tier_index (result_format rf) = Some i" "1 \<le> i" and l: "ul = Some l"
    apply (subst rf, subst (2) rf)
    apply (simp only: format_upper[OF t] compute_percents_zero l)
    apply (simp add: keep)
    apply (simp add: basic_result_def Let_def)
    done
  have d: "format_map_output h rf s (Some c) nn (Some u) ul uil = Inl OverflowError
        \<or> (\<exists>p r q. format_map_output h rf s (Some c) nn (Some u) ul uil = Inr p
              \<and> result p = Some r
              \<and> py_truediv u c = Inr q
              \<and> r ''unexpected_percent'' = Some (PFloat (py_times_100 q)))"
    if t: "tier_index (result_format rf) = Some i" "1 \<le> i" and l: "ul = Some l" and c: "0 < c"
  proof (cases "compute_percents (Some c) nn (Some u)")
    case (Inl e)
    then have "e = OverflowError" by (rule compute_percents_known)
    then have "format_map_output h rf s (Some c) nn (Some u) ul uil = Inl OverflowError"
      apply (subst rf)
      apply (simp only: format_upper[OF t] Inl)
      apply simp
      done
    then show ?thesis ..
  next
    case (Inr p)
    from compute_percents_pos[OF c Inr] obtain q where q: "py_truediv u c = Inr q"
      and up: "unexpected_percent p = Some (py_times_100 q)" by blast
    have "\<exists>p r. format_map_output h rf s (Some c) nn (Some u) ul uil = Inr p
              \<and> result p = Some r
              \<and> r ''unexpected_percent'' = Some (PFloat (py_times_100 q))"
      apply (subst rf)
      apply (simp only: format_upper[OF t] Inr l)
      apply (simp add: keep)
      apply (simp add: basic_result_def Let_def up)
      done
    then show ?thesis using q by blast
  qed
  have e: "\<exists>p. format_map_output h rf s (Some c) nn (Some u) ul uil = Inr p"
    if t: "tier_index (result_format rf) = Some i" "1 \<le> i" and l: "ul = Some l"
      and r: "0 \<le> u" "u \<le> c" "case nn of None \<Rightarrow> True | Some n \<Rightarrow> u \<le> n \<and> n \<le> c"
  proof -
    from compute_percents_in_range[OF r] obtain p
      where p: "compute_percents (Some c) nn (Some u) = Inr p" by blast
    show ?thesis
      apply (subst rf)
      apply (simp only: format_upper[OF t] p l)
      apply simp
      done
  qed
  show ?thesis using a b c d e by blast
qed

theorem format_map_output_zero_division_guard_witness:
  "tier_index (result_format \<lparr>result_format = ''SUMMARY'', partial_unexpected_count = 20\<rparr>) = Some 2
   \<and> (1::nat) \<le> 2 \<and> (0::int) < 100 \<and> (0::int) \<le> 7 \<and> (7::int) \<le> 100
   \<and> (\<exists>p r. format_map_output (\<lambda>_. True)
              \<lparr>result_format = ''SUMMARY'', partial_unexpected_count = 20\<rparr> (Some True)
              (Some 0) (Some 0) (Some 0) (Some ([]::string list)) None = Inr p
          \<and> result p = Some r
          \<and> r ''unexpected_percent'' = Some PNone
          \<and> r ''missing_percent'' = Some PNone
          \<and> r ''unexpected_percent_nonmissing'' = Some PNone)
   \<and> py_truediv 7 100 = Inr (Float (1261007895663739 / 18014398509481984))
   \<and> (\<exists>p r. format_map_output (\<lambda>_. True)
              \<lparr>result_format = ''SUMMARY'', partial_unexpected_count = 20\<rparr> (Some True)
              (Some 100) (Some 100) (Some 7) (Some ([]::string list)) None = Inr p
          \<and> result p = Some r
          \<and> r ''unexpected_percent''
                = Some (PFloat (Float (7881299347898369 / 1125899906842624))))"
proof -
  let ?rf = "\<lparr>result_format = ''SUMMARY'', partial_unexpected_count = 20\<rparr>"
  have q: "py_truediv 7 100 = Inr (Float (1261007895663739 / 18014398509481984))"
    and m: "py_times_100 (Float (1261007895663739 / 18014398509481984))
              = Float (7881299347898369 / 1125899906842624)"
    and pct: "percent_of (Some 7) 100 = Inr (Float (7881299347898369 / 1125899906842624))"
      "percent_of (Some 0) 100 = Inr (Float 0)"
    by code_simp+
  have ok: "format_map_output (\<lambda>_. True) ?rf (Some True)
              (Some 100) (Some 100) (Some 7) (Some ([]::string list)) None \<noteq> Inl OverflowError"
    by (simp add: format_map_output_def compute_percents_def pct Let_def)
  show ?thesis
    using q m ok format_map_output_zero_division_guard [where rf = ?rf
      and i = 2 and ul = "Some ([]::string list)" and l = "[]" and c = 100 and u = 7
      and nn = "Some 0" and h = "(\<lambda>_. True)" and s = "Some True" and uc = "Some 0" and uil = None]
      format_map_output_zero_division_guard [where rf = ?rf
      and i = 2 and ul = "Some ([]::string list)" and l = "[]" and c = 100 and u = 7
      and nn = "Some 100" and h = "(\<lambda>_. True)" and s = "Some True" and uc = "Some 7" and uil = None]
    by (auto simp: tier_index_def)
qed

text \<open>
  Claim C10. With a \<open>partial_unexpected_count\<close> limit of 0, the SUMMARY and COMPLETE payloads
  have neither a \<open>partial_unexpected_counts\<close> nor a \<open>partial_unexpected_index_list\<close> field;
  with a positive limit they have both.
\<close>

theorem format_map_output_limit_zero:
  assumes "result_format rf \<in> {''SUMMARY'', ''COMPLETE''}"
    and "format_map_output h rf s ec nn uc ul uil = Inr p"
  shows "\<exists>r. result p = Some r
     \<and> (partial_unexpected_count rf = 0 \<longrightarrow>
          ''partial_unexpected_counts'' \<notin> dom r \<and> ''partial_unexpected_index_list'' \<notin> dom r)
     \<and> (0 < partial_unexpected_count rf \<longrightarrow>
          ''partial_unexpected_counts'' \<in> dom r \<and> ''partial_unexpected_index_list'' \<in> dom r)"
proof -
  from assms obtain r where r: "result p = Some r"
    by (auto simp: format_map_output_def Let_def split: sum.splits option.splits if_splits)
  have z: "r ''partial_unexpected_counts'' = None \<and> r ''partial_unexpected_index_list'' = None"
    if "partial_unexpected_count rf = 0"
    using format_limit_zero[OF _ assms(2) r] that by simp
  have "\<exists>y. r ''partial_unexpected_counts'' = Some y" "\<exists>y. r ''partial_unexpected_index_list'' = Some y"
    if "0 < partial_unexpected_count rf"
    using assms r that
    by (auto simp: format_map_output_def Let_def summary_update_def complete_update_def
        split: sum.splits option.splits if_splits)
  then show ?thesis using r z by (auto simp: dom_def)
qed

theorem format_map_output_limit_zero_witness:
  "result_format \<lparr>result_format = ''SUMMARY'', partial_unexpected_count = 0\<rparr> \<in> {''SUMMARY'', ''COMPLETE''}
   \<and> format_map_output (\<lambda>_. True) \<lparr>result_format = ''SUMMARY'', partial_unexpected_count = 0\<rparr>
         (Some False) (Some 4) (Some 4) (Some 3) (Some [''a'', ''a'', ''b'']) None
       = Inr \<lparr>success = Some False,
              result = Some [''element_count'' \<mapsto> PInt 4, ''unexpected_count'' \<mapsto> PInt 3,
                 ''unexpected_percent'' \<mapsto> PFloat (Float 75),
                 ''partial_unexpected_list'' \<mapsto> PList [],
                 ''missing_count'' \<mapsto> PInt 0, ''missing_percent'' \<mapsto> PFloat (Float 0),
                 ''unexpected_percent_nonmissing'' \<mapsto> PFloat (Float 75)]\<rparr>
   \<and> ''partial_unexpected_counts'' \<notin> dom [''element_count'' \<mapsto> PInt 4, ''unexpected_count'' \<mapsto> PInt 3,
                 ''unexpected_percent'' \<mapsto> PFloat (Float 75),
                 ''partial_unexpected_list'' \<mapsto> (PList []::string pyval),
                 ''missing_count'' \<mapsto> PInt 0, ''missing_percent'' \<mapsto> PFloat (Float 0),
                 ''unexpected_percent_nonmissing'' \<mapsto> PFloat (Float 75)]
   \<and> ''partial_unexpected_index_list'' \<notin> dom [''element_count'' \<mapsto> PInt 4, ''unexpected_count'' \<mapsto> PInt 3,
                 ''unexpected_percent'' \<mapsto> PFloat (Float 75),
                 ''partial_unexpected_list'' \<mapsto> (PList []::string pyval),
                 ''missing_count'' \<mapsto> PInt 0, ''missing_percent'' \<mapsto> PFloat (Float 0),
                 ''unexpected_percent_nonmissing'' \<mapsto> PFloat (Float 75)]
   \<and> (0::int) < 2
   \<and> format_map_output (\<lambda>_. True) \<lparr>result_format = ''SUMMARY'', partial_unexpected_count = 2\<rparr>
         (Some False) (Some 4) (Some 4) (Some 3) (Some [''a'', ''a'', ''b'']) None
       = Inr \<lparr>success = Some False,
              result = Some [''element_count'' \<mapsto> PInt 4, ''unexpected_count'' \<mapsto> PInt 3,
                 ''unexpected_percent'' \<mapsto> PFloat (Float 75),
                 ''partial_unexpected_list'' \<mapsto> PList [''a'', ''a''],
                 ''missing_count'' \<mapsto> PInt 0, ''missing_percent'' \<mapsto> PFloat (Float 0),
                 ''unexpected_percent_nonmissing'' \<mapsto> PFloat (Float 75),
                 ''partial_unexpected_index_list'' \<mapsto> PNone,
                 ''partial_unexpected_counts'' \<mapsto> PCounts [(''a'', 2), (''b'', 1)]]\<rparr>"
proof -
  have pct: "percent_of (Some 3) 4 = Inr (Float 75)" "percent_of (Some 0) 4 = Inr (Float 0)"
    by code_simp+
  let ?z = "\<lparr>result_format = ''SUMMARY'', partial_unexpected_count = 0\<rparr>"
  let ?t = "\<lparr>result_format = ''SUMMARY'', partial_unexpected_count = 2\<rparr>"
  have f: "result_format ?z \<in> {''SUMMARY'', ''COMPLETE''}"
    and f2: "result_format ?t \<in> {''SUMMARY'', ''COMPLETE''}"
    by simp_all
  have q: "format_map_output (\<lambda>_. True) ?z
         (Some False) (Some 4) (Some 4) (Some 3) (Some [''a'', ''a'', ''b'']) None
       = Inr \<lparr>success = Some False,
              result = Some [''element_count'' \<mapsto> PInt 4, ''unexpected_count'' \<mapsto> PInt 3,
                 ''unexpected_percent'' \<mapsto> PFloat (Float 75),
                 ''partial_unexpected_list'' \<mapsto> PList [],
                 ''missing_count'' \<mapsto> PInt 0, ''missing_percent'' \<mapsto> PFloat (Float 0),
                 ''unexpected_percent_nonmissing'' \<mapsto> PFloat (Float 75)]\<rparr>"
    by (simp add: format_map_output_def compute_percents_def pct
        basic_result_def summary_update_def py_slice_to_def Let_def)
  have pc: "partial_unexpected_counts (\<lambda>_. True) 2 [''a'', ''a'', ''b'']
      = PCounts [(''a'', 2), (''b'', 1)]"
    by (simp add: partial_unexpected_counts_def most_common_def Counter_def)
  have q2: "format_map_output (\<lambda>_. True) ?t
         (Some False) (Some 4) (Some 4) (Some 3) (Some [''a'', ''a'', ''b'']) None
       = Inr \<lparr>success = Some False,
              result = Some [''element_count'' \<mapsto> PInt 4, ''unexpected_count'' \<mapsto> PInt 3,
                 ''unexpected_percent'' \<mapsto> PFloat (Float 75),
                 ''partial_unexpected_list'' \<mapsto> PList [''a'', ''a''],
                 ''missing_count'' \<mapsto> PInt 0, ''missing_percent'' \<mapsto> PFloat (Float 0),
                 ''unexpected_percent_nonmissing'' \<mapsto> PFloat (Float 75),
                 ''partial_unexpected_index_list'' \<mapsto> PNone,
                 ''partial_unexpected_counts'' \<mapsto> PCounts [(''a'', 2), (''b'', 1)]]\<rparr>"
    by (simp add: format_map_output_def compute_percents_def pct
        basic_result_def summary_update_def py_slice_to_def Let_def pc)
  show ?thesis
    using f q q2 format_map_output_limit_zero [OF f q] format_map_output_limit_zero [OF f2 q2]
    by simp
qed


lemma format_summary_counts_field:
  assumes f: "result_format rf \<in> {''SUMMARY'', ''COMPLETE''}"
    and n: "0 < partial_unexpected_count rf"
    and r: "format_map_output h rf s ec nn uc (Some xs) uil = Inr p"
  shows "\<exists>r. result p = Some r \<and>
     r ''partial_unexpected_counts''
       = Some (partial_unexpected_counts h (partial_unexpected_count rf) xs)"
  using f n r
  by (auto simp: format_map_output_def Let_def summary_update_def complete_update_def
      split: sum.splits if_splits)

text \<open>
  Claim C5 (as amended). For a list of hashable values and a positive limit \<open>n\<close>, the field
  \<open>partial_unexpected_counts\<close> of the SUMMARY and COMPLETE payloads holds \<open>min n k\<close> entries,
  \<open>k\<close> being the number of distinct values of \<open>unexpected_list\<close>; each entry is a value of
  the list with its number of occurrences; the entries are listed by descending count and,
  among equal counts, by ascending value; and every value left out has a smaller count than
  each listed value, or the same count and a first occurrence in the list after an
  occurrence of the listed value. So the cut to \<open>n\<close> entries is made before the ordering by
  value, by count and then by first occurrence. The list \<open>["a", "a", "b"]\<close> with limit 2
  gives \<open>[("a", 2), ("b", 1)]\<close>.
\<close>

theorem partial_unexpected_counts_most_frequent:
  fixes xs :: "'a::linorder list"
  assumes h: "list_all hashable xs"
    and n: "0 < partial_unexpected_count rf"
    and f: "result_format rf \<in> {''SUMMARY'', ''COMPLETE''}"
    and r: "format_map_output hashable rf s ec nn uc (Some xs) uil = Inr p"
  shows "(\<exists>r out. result p = Some r
       \<and> r ''partial_unexpected_counts'' = Some (PCounts out)
       \<and> length out = min (nat (partial_unexpected_count rf)) (card (set xs))
       \<and> (\<forall>(v, c) \<in> set out. v \<in> set xs \<and> c = count_list xs v)
       \<and> sorted_wrt (\<lambda>(v, c) (w, d). d < c \<or> (d = c \<and> v < w)) out
       \<and> (\<forall>w \<in> set xs. w \<notin> fst ` set out \<longrightarrow>
            (\<forall>(v, c) \<in> set out. count_list xs w < c
                \<or> (count_list xs w = c \<and> v \<in> set (takeWhile (\<lambda>x. x \<noteq> w) xs)))))
     \<and> (\<exists>r. format_map_output (\<lambda>_. True)
              \<lparr>result_format = ''SUMMARY'', partial_unexpected_count = 2\<rparr>
              (Some False) (Some 4) (Some 4) (Some 3) (Some [''a'', ''a'', ''b'']) None
            = Inr \<lparr>success = Some False, result = Some r\<rparr>
          \<and> r ''partial_unexpected_counts'' = Some (PCounts [(''a'', 2), (''b'', 1)]))"
proof -
  from format_summary_counts_field[OF f n r] obtain res where res: "result p = Some res"
    and fld: "res ''partial_unexpected_counts''
       = Some (partial_unexpected_counts hashable (partial_unexpected_count rf) xs)"
    by blast
  from partial_unexpected_counts_props[OF h n] obtain out where
    out: "partial_unexpected_counts hashable (partial_unexpected_count rf) xs = PCounts out"
    and props: "length out = min (nat (partial_unexpected_count rf)) (card (set xs))"
      "\<forall>(v, c) \<in> set out. v \<in> set xs \<and> c = count_list xs v"
      "sorted_wrt (\<lambda>(v, c) (w, d). d < c \<or> (d = c \<and> v < w)) out"
      "\<forall>w \<in> set xs. w \<notin> fst ` set out \<longrightarrow>
            (\<forall>(v, c) \<in> set out. count_list xs w < c
                \<or> (count_list xs w = c \<and> v \<in> set (takeWhile (\<lambda>x. x \<noteq> w) xs)))"
    by blast
  have general: "\<exists>r out. result p = Some r
       \<and> r ''partial_unexpected_counts'' = Some (PCounts out)
       \<and> length out = min (nat (partial_unexpected_count rf)) (card (set xs))
       \<and> (\<forall>(v, c) \<in> set out. v \<in> set xs \<and> c = count_list xs v)
       \<and> sorted_wrt (\<lambda>(v, c) (w, d). d < c \<or> (d = c \<and> v < w)) out
       \<and> (\<forall>w \<in> set xs. w \<notin> fst ` set out \<longrightarrow>
            (\<forall>(v, c) \<in> set out. count_list xs w < c
                \<or> (count_list xs w = c \<and> v \<in> set (takeWhile (\<lambda>x. x \<noteq> w) xs))))"
    using res fld out props by (intro exI[of _ res] exI[of _ out]) simp
  have pct: "percent_of (Some 3) 4 = Inr (Float 75)" "percent_of (Some 0) 4 = Inr (Float 0)"
    by code_simp+
  have pc: "partial_unexpected_counts (\<lambda>_. True) 2 [''a'', ''a'', ''b'']
      = PCounts [(''a'', 2), (''b'', 1)]"
    by (simp add: partial_unexpected_counts_def most_common_def Counter_def)
  have example: "\<exists>r. format_map_output (\<lambda>_. True)
              \<lparr>result_format = ''SUMMARY'', partial_unexpected_count = 2\<rparr>
              (Some False) (Some 4) (Some 4) (Some 3) (Some [''a'', ''a'', ''b'']) None
            = Inr \<lparr>success = Some False, result = Some r\<rparr>
          \<and> r ''partial_unexpected_counts'' = Some (PCounts [(''a'', 2), (''b'', 1)])"
    by (simp add: format_map_output_def compute_percents_def pct
        basic_result_def summary_update_def py_slice_to_def Let_def pc)
  show ?thesis using general example by (rule conjI)
qed

theorem partial_unexpected_counts_most_frequent_witness:
  "list_all (\<lambda>_. True) [''b'', ''a'']
   \<and> 0 < partial_unexpected_count \<lparr>result_format = ''SUMMARY'', partial_unexpected_count = 1\<rparr>
   \<and> result_format \<lparr>result_format = ''SUMMARY'', partial_unexpected_count = 1\<rparr>
        \<in> {''SUMMARY'', ''COMPLETE''}
   \<and> format_map_output (\<lambda>_. True)
         \<lparr>result_format = ''SUMMARY'', partial_unexpected_count = 1\<rparr>
         (Some False) (Some 2) (Some 2) (Some 2) (Some [''b'', ''a'']) None
       = Inr \<lparr>success = Some False,
              result = Some [''element_count'' \<mapsto> PInt 2, ''unexpected_count'' \<mapsto> PInt 2,
                 ''unexpected_percent'' \<mapsto> PFloat (Float 100),
                 ''partial_unexpected_list'' \<mapsto> PList [''b''],
                 ''missing_count'' \<mapsto> PInt 0, ''missing_percent'' \<mapsto> PFloat (Float 0),
                 ''unexpected_percent_nonmissing'' \<mapsto> PFloat (Float 100),
                 ''partial_unexpected_index_list'' \<mapsto> PNone,
                 ''partial_unexpected_counts'' \<mapsto> PCounts [(''b'', 1)]]\<rparr>"
proof -
  let ?rf = "\<lparr>result_format = ''SUMMARY'', partial_unexpected_count = 1\<rparr>"
  have h: "list_all (\<lambda>_. True) [''b'', ''a'']" by simp
  have n: "0 < partial_unexpected_count ?rf" by simp
  have f: "result_format ?rf \<in> {''SUMMARY'', ''COMPLETE''}" by simp
  have pct: "percent_of (Some 2) 2 = Inr (Float 100)" "percent_of (Some 0) 2 = Inr (Float 0)"
    by code_simp+
  have pc: "partial_unexpected_counts (\<lambda>_. True) 1 [''b'', ''a''] = PCounts [(''b'', 1)]"
    by (simp add: partial_unexpected_counts_def most_common_def Counter_def)
  have q: "format_map_output (\<lambda>_. True) ?rf
         (Some False) (Some 2) (Some 2) (Some 2) (Some [''b'', ''a'']) None
       = Inr \<lparr>success = Some False,
              result = Some [''element_count'' \<mapsto> PInt 2, ''unexpected_count'' \<mapsto> PInt 2,
                 ''unexpected_percent'' \<mapsto> PFloat (Float 100),
                 ''partial_unexpected_list'' \<mapsto> PList [''b''],
                 ''missing_count'' \<mapsto> PInt 0, ''missing_percent'' \<mapsto> PFloat (Float 0),
                 ''unexpected_percent_nonmissing'' \<mapsto> PFloat (Float 100),
                 ''partial_unexpected_index_list'' \<mapsto> PNone,
                 ''partial_unexpected_counts'' \<mapsto> PCounts [(''b'', 1)]]\<rparr>"
    by (simp add: format_map_output_def compute_percents_def pct
        basic_result_def summary_update_def py_slice_to_def Let_def pc)
  have "\<exists>r. result \<lparr>success = Some False,
              result = Some [''element_count'' \<mapsto> PInt 2, ''unexpected_count'' \<mapsto> PInt 2,
                 ''unexpected_percent'' \<mapsto> PFloat (Float 100),
                 ''partial_unexpected_list'' \<mapsto> PList [''b''],
                 ''missing_count'' \<mapsto> PInt 0, ''missing_percent'' \<mapsto> PFloat (Float 0),
                 ''unexpected_percent_nonmissing'' \<mapsto> PFloat (Float 100),
                 ''partial_unexpected_index_list'' \<mapsto> PNone,
                 ''partial_unexpected_counts'' \<mapsto> PCounts [(''b'', 1)]]\<rparr> = Some r"
    using partial_unexpected_counts_most_frequent [OF h n f q] by blast
  then show ?thesis using h n f q by (intro conjI)
qed

theorem partial_unexpected_counts_order_then_cut_counterexample:
  "format_map_output (\<lambda>_. True)
         \<lparr>result_format = ''SUMMARY'', partial_unexpected_count = 1\<rparr>
         (Some False) (Some 2) (Some 2) (Some 2) (Some [''b'', ''a'']) None
       = Inr \<lparr>success = Some False,
              result = Some [''element_count'' \<mapsto> PInt 2, ''unexpected_count'' \<mapsto> PInt 2,
                 ''unexpected_percent'' \<mapsto> PFloat (Float 100),
                 ''partial_unexpected_list'' \<mapsto> PList [''b''],
                 ''missing_count'' \<mapsto> PInt 0, ''missing_percent'' \<mapsto> PFloat (Float 0),
                 ''unexpected_percent_nonmissing'' \<mapsto> PFloat (Float 100),
                 ''partial_unexpected_index_list'' \<mapsto> PNone,
                 ''partial_unexpected_counts'' \<mapsto> PCounts [(''b'', 1)]]\<rparr>
   \<and> partial_unexpected_counts_spec 1 [''b'', ''a''] = [(''a'', 1)]"
proof -
  have pct: "percent_of (Some 2) 2 = Inr (Float 100)" "percent_of (Some 0) 2 = Inr (Float 0)"
    by code_simp+
  have pc: "partial_unexpected_counts (\<lambda>_. True) 1 [''b'', ''a''] = PCounts [(''b'', 1)]"
    by (simp add: partial_unexpected_counts_def most_common_def Counter_def)
  have sp: "partial_unexpected_counts_spec 1 [''b'', ''a''] = [(''a'', 1)]"
    by (simp add: partial_unexpected_counts_spec_def)
  have q: "format_map_output (\<lambda>_. True)
         \<lparr>result_format = ''SUMMARY'', partial_unexpected_count = 1\<rparr>
         (Some False) (Some 2) (Some 2) (Some 2) (Some [''b'', ''a'']) None
       = Inr \<lparr>success = Some False,
              result = Some [''element_count'' \<mapsto> PInt 2, ''unexpected_count'' \<mapsto> PInt 2,
                 ''unexpected_percent'' \<mapsto> PFloat (Float 100),
                 ''partial_unexpected_list'' \<mapsto> PList [''b''],
                 ''missing_count'' \<mapsto> PInt 0, ''missing_percent'' \<mapsto> PFloat (Float 0),
                 ''unexpected_percent_nonmissing'' \<mapsto> PFloat (Float 100),
                 ''partial_unexpected_index_list'' \<mapsto> PNone,
                 ''partial_unexpected_counts'' \<mapsto> PCounts [(''b'', 1)]]\<rparr>"
    by (simp add: format_map_output_def compute_percents_def pct
        basic_result_def summary_update_def py_slice_to_def Let_def pc)
  show ?thesis using q sp by (rule conjI)
qed

section \<open>Properties of the dependency declarations\<close>

lemma suffix_neq_row_count: "mm @ ''.unexpected_rows'' \<noteq> ''table.row_count''"
proof
  assume "mm @ ''.unexpected_rows'' = ''table.row_count''"
  then have "last (mm @ ''.unexpected_rows'') = last ''table.row_count''" by simp
  then show False by simp
qed

lemma suffix_neq_nonnull: "mm @ ''.unexpected_rows'' \<noteq> ''column_values.nonnull.unexpected_count''"
proof
  assume "mm @ ''.unexpected_rows'' = ''column_values.nonnull.unexpected_count''"
  then have "last (mm @ ''.unexpected_rows'') = last ''column_values.nonnull.unexpected_count''" by simp
  then show False by simp
qed

lemma ColumnMap_dependencies:
  assumes "result_format rf \<in> {''BOOLEAN_ONLY'', ''BASIC'', ''SUMMARY'', ''COMPLETE''}"
  shows "\<exists>d. ColumnMapExpectation_get_validation_dependencies mk (Some mm) [] pandas rf = Inr d
     \<and> ''table.row_count'' \<in> dom (dep_metrics d)
     \<and> ''column_values.nonnull.unexpected_count'' \<in> dom (dep_metrics d)
     \<and> mm @ ''.unexpected_count'' \<in> dom (dep_metrics d)
     \<and> (mm @ ''.unexpected_rows'' \<in> dom (dep_metrics d) \<longleftrightarrow> result_format rf = ''COMPLETE'')"
  using assms
  by (auto simp: ColumnMapExpectation_get_validation_dependencies_def
      TableExpectation_get_validation_dependencies_def Let_def suffix_neq_row_count suffix_neq_nonnull)

lemma ColumnPairMap_dependencies:
  assumes "result_format rf \<in> {''BASIC'', ''SUMMARY'', ''COMPLETE''}"
  shows "\<exists>d. ColumnPairMapExpectation_get_validation_dependencies mk (Some mm) [] pandas rf = Inr d
     \<and> ''table.row_count'' \<in> dom (dep_metrics d)
     \<and> ''column_values.nonnull.unexpected_count'' \<in> dom (dep_metrics d)
     \<and> mm @ ''.unexpected_count'' \<in> dom (dep_metrics d)
     \<and> (mm @ ''.unexpected_rows'' \<in> dom (dep_metrics d) \<longleftrightarrow> result_format rf = ''COMPLETE'')"
  using assms
  by (auto simp: ColumnPairMapExpectation_get_validation_dependencies_def
      TableExpectation_get_validation_dependencies_def Let_def suffix_neq_row_count suffix_neq_nonnull)

text \<open>
  Claim C3. \<open>ColumnMapExpectation\<close> requests \<open>table.row_count\<close>, the nonnull count and the
  unexpected count for every result format, and the unexpected rows exactly for COMPLETE
  (lemma \<open>ColumnMap_dependencies\<close>); \<open>ColumnPairMapExpectation\<close> does so for BASIC, SUMMARY
  and COMPLETE (lemma \<open>ColumnPairMap_dependencies\<close>). For BOOLEAN_ONLY,
  \<open>ColumnPairMapExpectation\<close> returns before it requests \<open>table.row_count\<close>: the metric set
  is the nonnull count and the unexpected count only.
\<close>

theorem ColumnPairMap_boolean_only_omits_row_count:
  "\<exists>d. ColumnPairMapExpectation_get_validation_dependencies (\<lambda>name. name)
          (Some ''column_pair_values.equal'') [] False
          \<lparr>result_format = ''BOOLEAN_ONLY'', partial_unexpected_count = 20\<rparr> = Inr d
     \<and> ''table.row_count'' \<notin> dom (dep_metrics d)
     \<and> dom (dep_metrics d) = {''column_values.nonnull.unexpected_count'',
           ''column_pair_values.equal.unexpected_count''}"
  by (auto simp: ColumnPairMapExpectation_get_validation_dependencies_def
      TableExpectation_get_validation_dependencies_def Let_def)

section \<open>Properties of the Spark execution engine\<close>

lemma select_batch_cong:
  "dk1 ''batch_id'' = dk2 ''batch_id'' \<Longrightarrow> select_batch eng dk1 = select_batch eng dk2"
  by (simp add: select_batch_def kw_get_def)

lemma apply_row_condition_cong:
  assumes "dk1 ''row_condition'' = dk2 ''row_condition''"
    and "dk1 ''condition_parser'' = dk2 ''condition_parser''"
  shows "apply_row_condition B dk1 data = apply_row_condition B dk2 data"
proof -
  have rc: "kw_get dk1 ''row_condition'' = kw_get dk2 ''row_condition''"
    and cp: "kw_get dk1 ''condition_parser'' = kw_get dk2 ''condition_parser''"
    using assms by (simp_all add: kw_get_def)
  show ?thesis unfolding apply_row_condition_def rc cp ..
qed

lemma get_compute_domain_Inr:
  assumes "get_compute_domain B eng dk = Inr (data, cdk, adk)"
  shows "cdk = dk(''column'' := None)"
    and "adk = (case dk ''column'' of None \<Rightarrow> Map.empty | Some c \<Rightarrow> [''column'' \<mapsto> c])"
    and "\<exists>d0. select_batch eng dk = Inr d0 \<and> apply_row_condition B dk d0 = Inr data"
    and "\<not> truthy (kw_get dk ''table'')"
  using assms
  by (auto simp: get_compute_domain_def split: sum.splits if_splits option.splits)

text \<open>
  Claim C6. The compute domain kwargs that \<open>get_compute_domain\<close> returns have no
  \<open>column\<close> key, a \<open>column\<close> key of the input is moved to the accessor domain kwargs, and
  two accepted domain kwargs that agree on every key but \<open>column\<close> give the same compute
  domain kwargs (and the same data).
\<close>

theorem get_compute_domain_column_is_accessor:
  assumes r1: "get_compute_domain B eng dk1 = Inr (data1, cdk1, adk1)"
    and r2: "get_compute_domain B eng dk2 = Inr (data2, cdk2, adk2)"
    and same: "\<forall>k. k \<noteq> ''column'' \<longrightarrow> dk1 k = dk2 k"
  shows "''column'' \<notin> dom cdk1 \<and> ''column'' \<notin> dom cdk2
     \<and> (\<forall>c. dk1 ''column'' = Some c \<longrightarrow> adk1 = [''column'' \<mapsto> c])
     \<and> cdk1 = cdk2 \<and> data1 = data2"
proof -
  note a = get_compute_domain_Inr[OF r1] and b = get_compute_domain_Inr[OF r2]
  have c1: "''column'' \<notin> dom cdk1" "''column'' \<notin> dom cdk2" using a(1) b(1) by simp_all
  have acc: "\<forall>c. dk1 ''column'' = Some c \<longrightarrow> adk1 = [''column'' \<mapsto> c]" using a(2) by simp
  have eq: "cdk1 = cdk2"
    unfolding a(1) b(1) using same by (auto simp: fun_eq_iff)
  have sb: "select_batch eng dk1 = select_batch eng dk2"
    by (rule select_batch_cong) (simp add: same)
  have "apply_row_condition B dk1 d = apply_row_condition B dk2 d" for d
    by (rule apply_row_condition_cong) (simp_all add: same)
  then have "data1 = data2" using a(3) b(3) sb by auto
  then show ?thesis using c1 acc eq by blast
qed

text \<open>
  Claim C7. With a non-empty row condition whose condition parser is neither \<open>spark\<close> nor
  \<open>great_expectations__experimental__\<close>, \<open>get_compute_domain\<close> raises and returns no data;
  when the batch is found and no table is named, the exception is the
  \<open>GreatExpectationsError\<close> on the parser.
\<close>

theorem get_compute_domain_unrecognized_parser:
  assumes rc: "dk ''row_condition'' = Some (KStr s)" "s \<noteq> []"
    and cp: "kw_get dk ''condition_parser'' \<noteq> KStr ''spark''"
       "kw_get dk ''condition_parser'' \<noteq> KStr ''great_expectations__experimental__''"
  shows "(\<exists>e. get_compute_domain B eng dk = Inl e)
     \<and> (\<forall>data. select_batch eng dk = Inr data \<and> \<not> truthy (kw_get dk ''table'') \<longrightarrow>
           get_compute_domain B eng dk = Inl GreatExpectationsError)"
proof -
  have "apply_row_condition B dk data = Inl GreatExpectationsError" for data
    using assms by (simp add: apply_row_condition_def kw_get_def)
  then show ?thesis
    by (auto simp: get_compute_domain_def split: sum.splits)
qed

theorem get_compute_domain_column_is_accessor_witness:
  "get_compute_domain example_backend example_engine
      [''row_condition'' \<mapsto> KStr ''x > 1'', ''condition_parser'' \<mapsto> KStr ''spark'',
       ''column'' \<mapsto> KStr ''a'']
     = Inr (''batch_1 WHERE x > 1'',
            [''row_condition'' \<mapsto> KStr ''x > 1'', ''condition_parser'' \<mapsto> KStr ''spark''],
            [''column'' \<mapsto> KStr ''a''])
   \<and> get_compute_domain example_backend example_engine
      [''row_condition'' \<mapsto> KStr ''x > 1'', ''condition_parser'' \<mapsto> KStr ''spark'',
       ''column'' \<mapsto> KStr ''b'']
     = Inr (''batch_1 WHERE x > 1'',
            [''row_condition'' \<mapsto> KStr ''x > 1'', ''condition_parser'' \<mapsto> KStr ''spark''],
            [''column'' \<mapsto> KStr ''b''])
   \<and> ''column'' \<notin> dom [''row_condition'' \<mapsto> KStr ''x > 1'', ''condition_parser'' \<mapsto> KStr ''spark'']"
proof -
  let ?m = "[''row_condition'' \<mapsto> KStr ''x > 1'', ''condition_parser'' \<mapsto> KStr ''spark'']"
  have a: "get_compute_domain example_backend example_engine (?m(''column'' \<mapsto> KStr c))
     = Inr (''batch_1 WHERE x > 1'', ?m, [''column'' \<mapsto> KStr c])" for c
    by (simp add: get_compute_domain_def select_batch_def apply_row_condition_def kw_get_def
        example_engine_def example_backend_def)
  have s: "\<forall>k. k \<noteq> ''column'' \<longrightarrow> (?m(''column'' \<mapsto> KStr ''a'')) k = (?m(''column'' \<mapsto> KStr ''b'')) k"
    by simp
  have "''column'' \<notin> dom ?m"
    using get_compute_domain_column_is_accessor [OF a[of "''a''"] a[of "''b''"] s]
    by (rule conjunct1)
  then show ?thesis
    using a[of "''a''"] a[of "''b''"] by (intro conjI) assumption+
qed


theorem get_compute_domain_unrecognized_parser_witness:
  "[''row_condition'' \<mapsto> KStr ''x > 1'', ''condition_parser'' \<mapsto> KStr ''pandas''] ''row_condition''
      = Some (KStr ''x > 1'')
   \<and> ''x > 1'' \<noteq> []
   \<and> kw_get [''row_condition'' \<mapsto> KStr ''x > 1'', ''condition_parser'' \<mapsto> KStr ''pandas'']
        ''condition_parser'' = KStr ''pandas''
   \<and> get_compute_domain example_backend example_engine
        [''row_condition'' \<mapsto> KStr ''x > 1'', ''condition_parser'' \<mapsto> KStr ''pandas'']
       = Inl GreatExpectationsError"
  using get_compute_domain_unrecognized_parser
    [of "[''row_condition'' \<mapsto> KStr ''x > 1'', ''condition_parser'' \<mapsto> KStr ''pandas'']"
        "''x > 1''" example_backend example_engine]
  by (simp add: kw_get_def select_batch_def example_engine_def)
























end
